theory Spec2Isabelle
  imports Complex_Main
begin

section \<open>Values, errors and envelopes\<close>

text \<open>
  Values that travel through the client and the dispatcher: tool arguments and upstream
  response bodies. The client and the dispatcher only test them for truthiness, read their
  properties and hand them on, so they are modelled in a restricted form: numbers by the
  integers, strings by \<^typ>\<open>string\<close> (code units below 256), objects by their
  entries in enumeration order. The formatter's payloads are JavaScript values in full
  (doubles, UTF-16 strings); they are defined with \<^verbatim>\<open>JSON.stringify\<close> below.
\<close>

datatype json =
    JNull
  | JBool bool
  | JNum int
  | JStr string
  | JArr "json list"
  | JObj "(string \<times> json) list"

text \<open>JavaScript truthiness, as used by \<^verbatim>\<open>request.params.arguments || {}\<close>.\<close>

fun truthy :: "json \<Rightarrow> bool" where
  "truthy JNull = False"
| "truthy (JBool b) = b"
| "truthy (JNum n) = (n \<noteq> 0)"
| "truthy (JStr s) = (s \<noteq> [])"
| "truthy (JArr xs) = True"
| "truthy (JObj kvs) = True"

text \<open>
  Property read \<^verbatim>\<open>args.k\<close>: \<open>None\<close> is JavaScript's \<^verbatim>\<open>undefined\<close>
  (the property is missing, or the value is a primitive without such a property).
  Reading a property of \<^verbatim>\<open>null\<close> throws; callers check for that first.
\<close>

fun member :: "json \<Rightarrow> string \<Rightarrow> json option" where
  "member (JObj kvs) k = map_of kvs k"
| "member _ k = None"

text \<open>
  The protocol error codes the server constructs, and the values that can be thrown:
  an instance of the SDK's \<^verbatim>\<open>McpError\<close>, an axios error (status of the
  upstream response if there was one, and its message), any other \<^verbatim>\<open>Error\<close>
  object with its message, or any other value at all.
\<close>

datatype ErrorCode = InvalidParams | MethodNotFound | InternalError

datatype thrown =
    McpError ErrorCode string
  | AxiosError "nat option" string
  | JsError string
  | ThrownValue "json option"

text \<open>
  A JavaScript string is a sequence of UTF-16 code units, each below 65536. The text of a
  content item is such a string.
\<close>

type_synonym jstring = "nat list"

datatype content_item = TextContent jstring

datatype envelope =
    SuccessEnvelope "content_item list"
  | ErrorEnvelope ErrorCode string

section \<open>The upstream client (services/NSApiService.ts)\<close>

text \<open>
  A GET issued through the axios instance: the URL, the subscription-key header set when
  the instance was created, and the \<^verbatim>\<open>params\<close> object as the method built it
  (a parameter whose value is \<^verbatim>\<open>undefined\<close> is \<open>None\<close>).
\<close>

record http_get =
  url :: string
  subscription_key :: "string option"
  params :: "(string \<times> json option) list"

text \<open>
  axios leaves a parameter whose value is \<^verbatim>\<open>undefined\<close> or \<^verbatim>\<open>null\<close> out
  of the query string.
\<close>

fun query_params :: "(string \<times> json option) list \<Rightarrow> (string \<times> json) list" where
  "query_params [] = []"
| "query_params ((k, None) # ps) = query_params ps"
| "query_params ((k, Some JNull) # ps) = query_params ps"
| "query_params ((k, Some v) # ps) = (k, v) # query_params ps"

text \<open>
  The network is an input of the model: it answers a GET with a body or with a thrown
  error. A method returns its outcome together with the GETs it issued, in order.
\<close>

type_synonym upstream = "http_get \<Rightarrow> thrown + json"

type_synonym 'a traced = "(thrown + 'a) \<times> http_get list"

record NSApiService =
  apiKey :: "string option"

definition BASE_URL :: string where
  "BASE_URL = ''https://gateway.apiportal.ns.nl''"

definition DISRUPTIONS :: string where "DISRUPTIONS = ''/disruptions/v3''"
definition TRIPS :: string where "TRIPS = ''/reisinformatie-api/api/v3/trips''"
definition DEPARTURES :: string where "DEPARTURES = ''/reisinformatie-api/api/v2/departures''"
definition ARRIVALS :: string where "ARRIVALS = ''/reisinformatie-api/api/v2/arrivals''"
definition PRICES :: string where "PRICES = ''/reisinformatie-api/api/v3/price''"
definition OVFIETS :: string where "OVFIETS = ''/places-api/v2/ovfiets''"
definition STATIONS :: string where "STATIONS = ''/nsapp-stations/v3''"

definition NOT_CONFIGURED :: string where
  "NOT_CONFIGURED =
     ''NS_API_KEY is not configured. Please provide your NS API key in the server configuration.''"

text \<open>\<^verbatim>\<open>!this.apiKey\<close> holds for an undefined key and for the empty string.\<close>

definition configured :: "NSApiService \<Rightarrow> bool" where
  "configured svc = (case apiKey svc of None \<Rightarrow> False | Some k \<Rightarrow> k \<noteq> [])"

definition ensureApiKeyConfigured :: "NSApiService \<Rightarrow> thrown + unit" where
  "ensureApiKeyConfigured svc =
     (if \<not> configured svc then Inl (JsError NOT_CONFIGURED) else Inr ())"

text \<open>
  The \<^verbatim>\<open>TypeError\<close> of reading a property of \<^verbatim>\<open>null\<close>; its message names
  the property.
\<close>

definition null_read :: "string \<Rightarrow> thrown" where
  "null_read property =
     JsError (''Cannot read properties of null (reading '' @ [CHR 0x27] @ property @
              [CHR 0x27] @ '')'')"

text \<open>A statement that may throw, followed by the rest of an \<^verbatim>\<open>async\<close> method.\<close>

definition and_then :: "thrown + unit \<Rightarrow> 'a traced \<Rightarrow> 'a traced" where
  "and_then statement rest =
     (case statement of
        Inl e \<Rightarrow> (Inl e, [])
      | Inr _ \<Rightarrow> rest)"

text \<open>
  \<^verbatim>\<open>await this.axiosInstance.get(path, { params })\<close> followed by
  \<^verbatim>\<open>return response.data\<close>. Building the params object reads properties of
  \<open>args\<close>, \<open>first\<close> before the others, which throws when \<open>args\<close> is
  \<^verbatim>\<open>null\<close>; then the GET goes out.
\<close>

definition axios_get ::
  "NSApiService \<Rightarrow> upstream \<Rightarrow> string \<Rightarrow> json \<Rightarrow> string \<Rightarrow> (string \<times> json option) list \<Rightarrow>
   json traced" where
  "axios_get svc up path args first ps =
     (if args = JNull then (Inl (null_read first), [])
      else
        (let req = \<lparr>url = BASE_URL @ path, subscription_key = apiKey svc, params = ps\<rparr>
         in (up req, [req])))"

definition getDisruptions :: "NSApiService \<Rightarrow> upstream \<Rightarrow> json \<Rightarrow> json traced" where
  "getDisruptions svc up args =
     and_then (ensureApiKeyConfigured svc)
       (axios_get svc up DISRUPTIONS args ''isActive''
         [(''isActive'', member args ''isActive''),
          (''type'', member args ''type'')])"

definition getTravelAdvice :: "NSApiService \<Rightarrow> upstream \<Rightarrow> json \<Rightarrow> json traced" where
  "getTravelAdvice svc up args =
     and_then (ensureApiKeyConfigured svc)
       (axios_get svc up TRIPS args ''fromStation''
         [(''fromStation'', member args ''fromStation''),
          (''toStation'', member args ''toStation''),
          (''dateTime'', member args ''dateTime''),
          (''searchForArrival'', member args ''searchForArrival'')])"

definition getDepartures :: "NSApiService \<Rightarrow> upstream \<Rightarrow> json \<Rightarrow> json traced" where
  "getDepartures svc up args =
     and_then (ensureApiKeyConfigured svc)
       (axios_get svc up DEPARTURES args ''station''
         [(''station'', member args ''station''),
          (''dateTime'', member args ''dateTime''),
          (''maxJourneys'', member args ''maxJourneys''),
          (''lang'', member args ''lang'')])"

definition getOVFiets :: "NSApiService \<Rightarrow> upstream \<Rightarrow> json \<Rightarrow> json traced" where
  "getOVFiets svc up args =
     and_then (ensureApiKeyConfigured svc)
       (axios_get svc up OVFIETS args ''stationCode''
         [(''station_code'', member args ''stationCode'')])"

text \<open>\<^verbatim>\<open>x ?? d\<close> replaces \<^verbatim>\<open>undefined\<close> and \<^verbatim>\<open>null\<close> by the default.\<close>

fun nullish_or :: "json option \<Rightarrow> json \<Rightarrow> json" where
  "nullish_or None d = d"
| "nullish_or (Some JNull) d = d"
| "nullish_or (Some v) d = v"

definition getStationInfo :: "NSApiService \<Rightarrow> upstream \<Rightarrow> json \<Rightarrow> json traced" where
  "getStationInfo svc up args =
     and_then (ensureApiKeyConfigured svc)
       (axios_get svc up STATIONS args ''query''
         [(''q'', member args ''query''),
          (''includeNonPlannableStations'',
             Some (nullish_or (member args ''includeNonPlannableStations'') (JBool False))),
          (''limit'', Some (nullish_or (member args ''limit'') (JNum 10)))])"

definition getArrivals :: "NSApiService \<Rightarrow> upstream \<Rightarrow> json \<Rightarrow> json traced" where
  "getArrivals svc up args =
     and_then (ensureApiKeyConfigured svc)
       (axios_get svc up ARRIVALS args ''station''
         [(''station'', member args ''station''),
          (''uicCode'', member args ''uicCode''),
          (''dateTime'', member args ''dateTime''),
          (''maxJourneys'', member args ''maxJourneys''),
          (''lang'', member args ''lang'')])"

definition getPrices :: "NSApiService \<Rightarrow> upstream \<Rightarrow> json \<Rightarrow> json traced" where
  "getPrices svc up args =
     and_then (ensureApiKeyConfigured svc)
       (axios_get svc up PRICES args ''fromStation''
         [(''fromStation'', member args ''fromStation''),
          (''toStation'', member args ''toStation''),
          (''travelClass'', member args ''travelClass''),
          (''travelType'', member args ''travelType''),
          (''isJointJourney'', member args ''isJointJourney''),
          (''adults'', member args ''adults''),
          (''children'', member args ''children''),
          (''routeId'', member args ''routeId''),
          (''plannedDepartureTime'', member args ''plannedDepartureTime''),
          (''plannedArrivalTime'', member args ''plannedArrivalTime'')])"

text \<open>The seven methods of the client, to quantify over them.\<close>

datatype api_method =
    GetDisruptions | GetTravelAdvice | GetDepartures | GetOVFiets
  | GetStationInfo | GetArrivals | GetPrices

fun invoke :: "api_method \<Rightarrow> NSApiService \<Rightarrow> upstream \<Rightarrow> json \<Rightarrow> json traced" where
  "invoke GetDisruptions = getDisruptions"
| "invoke GetTravelAdvice = getTravelAdvice"
| "invoke GetDepartures = getDepartures"
| "invoke GetOVFiets = getOVFiets"
| "invoke GetStationInfo = getStationInfo"
| "invoke GetArrivals = getArrivals"
| "invoke GetPrices = getPrices"

text \<open>
  The fields each tool declares in its input schema (the \<^verbatim>\<open>properties\<close> of the
  tool's \<^verbatim>\<open>inputSchema\<close> in the tool list), by the client method the tool calls.
\<close>

fun declared_fields :: "api_method \<Rightarrow> string list" where
  "declared_fields GetDisruptions = [''isActive'', ''type'']"
| "declared_fields GetTravelAdvice =
     [''fromStation'', ''toStation'', ''dateTime'', ''searchForArrival'']"
| "declared_fields GetDepartures =
     [''station'', ''uicCode'', ''dateTime'', ''maxJourneys'', ''lang'']"
| "declared_fields GetOVFiets = [''stationCode'']"
| "declared_fields GetStationInfo = [''query'', ''includeNonPlannableStations'', ''limit'']"
| "declared_fields GetArrivals =
     [''station'', ''uicCode'', ''dateTime'', ''maxJourneys'', ''lang'']"
| "declared_fields GetPrices =
     [''fromStation'', ''toStation'', ''travelClass'', ''travelType'', ''isJointJourney'',
      ''adults'', ''children'', ''routeId'', ''plannedDepartureTime'', ''plannedArrivalTime'']"

text \<open>
  The name under which a method passes a field: \<^verbatim>\<open>getOVFiets\<close> passes
  \<^verbatim>\<open>stationCode\<close> as \<^verbatim>\<open>station_code\<close>, \<^verbatim>\<open>getStationInfo\<close> passes
  \<^verbatim>\<open>query\<close> as \<^verbatim>\<open>q\<close>.
\<close>

definition query_name :: "api_method \<Rightarrow> string \<Rightarrow> string" where
  "query_name m f =
     (if m = GetOVFiets \<and> f = ''stationCode'' then ''station_code''
      else if m = GetStationInfo \<and> f = ''query'' then ''q''
      else f)"

text \<open>The fields \<^verbatim>\<open>getStationInfo\<close> gives a default with \<^verbatim>\<open>??\<close>.\<close>

definition defaulted :: "api_method \<Rightarrow> string \<Rightarrow> json option" where
  "defaulted m f =
     (if m = GetStationInfo \<and> f = ''includeNonPlannableStations'' then Some (JBool False)
      else if m = GetStationInfo \<and> f = ''limit'' then Some (JNum 10)
      else None)"

text \<open>The query parameters that go out on the wire when a method is called.\<close>

definition sent_query ::
  "api_method \<Rightarrow> NSApiService \<Rightarrow> upstream \<Rightarrow> json \<Rightarrow> (string \<times> json) list" where
  "sent_query m svc up args =
     concat (map (\<lambda>req. query_params (params req)) (snd (invoke m svc up args)))"


text \<open>A configured client, one without a key, and an upstream that answers every GET.\<close>

definition example_service :: NSApiService where
  "example_service = \<lparr>apiKey = Some ''secret''\<rparr>"

definition unconfigured_service :: NSApiService where
  "unconfigured_service = \<lparr>apiKey = None\<rparr>"

definition example_upstream :: upstream where
  "example_upstream req = Inr (JArr [])"


section \<open>The clock\<close>

text \<open>
  \<^verbatim>\<open>new Date()\<close> is an input of the model, given by its UTC fields.
  \<^verbatim>\<open>toISOString\<close> prints them as \<^verbatim>\<open>YYYY-MM-DDTHH:mm:ss.sssZ\<close>, each field in
  decimal and padded with zeros on the left; a year outside 0..9999 is printed with a
  sign and six digits.
\<close>

record js_date =
  year :: int
  month :: nat
  day :: nat
  hours :: nat
  minutes :: nat
  seconds :: nat
  milliseconds :: nat

definition digit_char :: "nat \<Rightarrow> char" where
  "digit_char d = char_of (48 + d)"

fun decimal :: "nat \<Rightarrow> string" where
  "decimal n = (if n < 10 then [digit_char n] else decimal (n div 10) @ [digit_char (n mod 10)])"

declare decimal.simps [simp del]

definition pad_start :: "nat \<Rightarrow> string \<Rightarrow> string" where
  "pad_start w s = replicate (w - length s) (CHR ''0'') @ s"

definition iso_year :: "int \<Rightarrow> string" where
  "iso_year y =
     (if 0 \<le> y \<and> y \<le> 9999 then pad_start 4 (decimal (nat y))
      else (if y < 0 then ''-'' else ''+'') @ pad_start 6 (decimal (nat \<bar>y\<bar>)))"

definition toISOString :: "js_date \<Rightarrow> string" where
  "toISOString d =
     iso_year (year d) @ ''-'' @ pad_start 2 (decimal (month d)) @ ''-'' @
     pad_start 2 (decimal (day d)) @ ''T'' @ pad_start 2 (decimal (hours d)) @ '':'' @
     pad_start 2 (decimal (minutes d)) @ '':'' @ pad_start 2 (decimal (seconds d)) @ ''.'' @
     pad_start 3 (decimal (milliseconds d)) @ ''Z''"

definition valid_date :: "js_date \<Rightarrow> bool" where
  "valid_date d =
     (0 \<le> year d \<and> year d \<le> 9999 \<and> 1 \<le> month d \<and> month d \<le> 12 \<and>
      1 \<le> day d \<and> day d \<le> 31 \<and> hours d < 24 \<and> minutes d < 60 \<and>
      seconds d < 60 \<and> milliseconds d < 1000)"

definition is_digit :: "char \<Rightarrow> bool" where
  "is_digit c = (48 \<le> (of_char c :: nat) \<and> (of_char c :: nat) \<le> 57)"

text \<open>The shape of a string: every decimal digit replaced by \<open>0\<close>.\<close>

definition shape :: "string \<Rightarrow> string" where
  "shape s = map (\<lambda>c. if is_digit c then CHR ''0'' else c) s"

text \<open>A moment of the clock, for examples.\<close>

definition example_now :: js_date where
  "example_now =
     \<lparr>year = 2026, month = 11, day = 2, hours = 6, minutes = 22, seconds = 5,
      milliseconds = 7\<rparr>"

section \<open>The tool dispatcher (the CallToolRequestSchema handler of http-server.ts)\<close>

text \<open>
  The dispatcher's collaborators from \<^verbatim>\<open>types.ts\<close> and
  \<^verbatim>\<open>utils/ResponseFormatter.ts\<close> are parameters of the model: the seven
  validators are predicates on the raw argument bag; the two formatters return an
  envelope or throw.
\<close>

record validators =
  isValidDisruptionsArgs :: "json \<Rightarrow> bool"
  isValidTravelAdviceArgs :: "json \<Rightarrow> bool"
  isValidDeparturesArgs :: "json \<Rightarrow> bool"
  isValidOVFietsArgs :: "json \<Rightarrow> bool"
  isValidStationInfoArgs :: "json \<Rightarrow> bool"
  isValidArrivalsArgs :: "json \<Rightarrow> bool"
  isValidPricesArgs :: "json \<Rightarrow> bool"

record ResponseFormatter =
  formatSuccess :: "json \<Rightarrow> thrown + envelope"
  formatError :: "thrown \<Rightarrow> thrown + envelope"

definition createMcpError :: "ErrorCode \<Rightarrow> string \<Rightarrow> thrown" where
  "createMcpError code message = McpError code message"

text \<open>
  One \<^verbatim>\<open>case\<close> of the switch for a tool that calls the client: reject the bag
  with an invalid-parameters error, or call the method and format its data.
\<close>

definition tool_case ::
  "ResponseFormatter \<Rightarrow> bool \<Rightarrow> string \<Rightarrow> json traced \<Rightarrow> envelope traced" where
  "tool_case F valid name call =
     (if \<not> valid then
        (Inl (createMcpError InvalidParams (''Invalid arguments for '' @ name)), [])
      else
        (case call of
           (Inl e, gets) \<Rightarrow> (Inl e, gets)
         | (Inr data, gets) \<Rightarrow> (formatSuccess F data, gets)))"

text \<open>The body of the \<^verbatim>\<open>try\<close> block.\<close>

definition tool_switch ::
  "validators \<Rightarrow> ResponseFormatter \<Rightarrow> NSApiService \<Rightarrow> upstream \<Rightarrow> js_date \<Rightarrow>
   string \<Rightarrow> json \<Rightarrow> envelope traced" where
  "tool_switch V F svc up now name rawArgs =
     (if name = ''get_disruptions'' then
        tool_case F (isValidDisruptionsArgs V rawArgs) name (getDisruptions svc up rawArgs)
      else if name = ''get_travel_advice'' then
        tool_case F (isValidTravelAdviceArgs V rawArgs) name (getTravelAdvice svc up rawArgs)
      else if name = ''get_departures'' then
        tool_case F (isValidDeparturesArgs V rawArgs) name (getDepartures svc up rawArgs)
      else if name = ''get_ovfiets'' then
        tool_case F (isValidOVFietsArgs V rawArgs) name (getOVFiets svc up rawArgs)
      else if name = ''get_station_info'' then
        tool_case F (isValidStationInfoArgs V rawArgs) name (getStationInfo svc up rawArgs)
      else if name = ''get_current_time_in_rfc3339'' then
        (formatSuccess F
           (JObj [(''datetime'', JStr (toISOString now)),
                  (''timezone'', JStr ''Europe/Amsterdam'')]), [])
      else if name = ''get_arrivals'' then
        tool_case F (isValidArrivalsArgs V rawArgs) name (getArrivals svc up rawArgs)
      else if name = ''get_prices'' then
        tool_case F (isValidPricesArgs V rawArgs) name (getPrices svc up rawArgs)
      else
        (Inl (createMcpError MethodNotFound (''Unknown tool: '' @ name)), []))"

text \<open>\<^verbatim>\<open>const rawArgs = request.params.arguments || {}\<close>; \<open>None\<close> is an absent bag.\<close>

definition raw_arguments :: "json option \<Rightarrow> json" where
  "raw_arguments arguments =
     (case arguments of
        None \<Rightarrow> JObj []
      | Some a \<Rightarrow> if truthy a then a else JObj [])"

text \<open>
  \<^verbatim>\<open>try { ... } catch (error) { return ResponseFormatter.formatError(error) }\<close>
  around an outcome of the \<^verbatim>\<open>try\<close> block. \<open>Inl\<close> in the result is an exception
  leaving the handler.
\<close>

definition caught :: "ResponseFormatter \<Rightarrow> thrown + envelope \<Rightarrow> thrown + envelope" where
  "caught F outcome =
     (case outcome of
        Inr result \<Rightarrow> Inr result
      | Inl error \<Rightarrow> formatError F error)"

definition callTool ::
  "validators \<Rightarrow> ResponseFormatter \<Rightarrow> NSApiService \<Rightarrow> upstream \<Rightarrow> js_date \<Rightarrow>
   string \<Rightarrow> json option \<Rightarrow> envelope traced" where
  "callTool V F svc up now name arguments =
     (case tool_switch V F svc up now name (raw_arguments arguments) of
        (outcome, gets) \<Rightarrow> (caught F outcome, gets))"

section \<open>JavaScript values and their JSON text\<close>

text \<open>
  A payload handed to \<^verbatim>\<open>JSON.stringify\<close>, and what \<^verbatim>\<open>JSON.parse\<close> returns, is a
  JavaScript value: \<^verbatim>\<open>null\<close>, a boolean, a number, a string, an array or a plain
  object. A number is an IEEE 754 double: a rational that is a finite double
  (\<open>Finite 0\<close> is positive zero), negative zero, an infinity, or NaN. An object is the
  list of its entries in the order JavaScript enumerates them. JSON text is a string.
\<close>

datatype number = Finite rat | NegZero | PosInfinity | NegInfinity | NaN

datatype jsvalue =
    VNull
  | VBool bool
  | VNum number
  | VStr jstring
  | VArr "jsvalue list"
  | VObj "(jstring \<times> jsvalue) list"

text \<open>The code units of a text written in ASCII.\<close>

definition units :: "string \<Rightarrow> jstring" where
  "units s = map of_char s"

subsection \<open>Doubles\<close>

text \<open>
  The spacing of the subnormal doubles is \<open>2\<close> to the power \<open>- subnormal_digits\<close>; the
  doubles end below \<open>overflow_threshold\<close>.
\<close>

definition subnormal_digits :: nat where
  "subnormal_digits = 1074"

definition overflow_threshold :: rat where
  "overflow_threshold = 2 ^ 1024"

fun log2_floor :: "nat \<Rightarrow> nat" where
  "log2_floor n = (if n < 2 then 0 else Suc (log2_floor (n div 2)))"

declare log2_floor.simps [simp del]

definition bit_length :: "nat \<Rightarrow> nat" where
  "bit_length n = (if n = 0 then 0 else Suc (log2_floor n))"

text \<open>The integer \<open>l\<close> with \<open>2 ^ l \<le> r < 2 ^ (l + 1)\<close>, for a positive \<open>r\<close>.\<close>

definition ilog2 :: "rat \<Rightarrow> int" where
  "ilog2 r =
     (if 1 \<le> r then int (log2_floor (nat \<lfloor>r\<rfloor>))
      else - int (bit_length (nat \<lceil>1 / r\<rceil> - 1)))"

text \<open>
  The doubles around a positive \<open>r\<close> are the multiples of \<open>2\<close> to the power
  \<open>ulp_exponent r\<close>: 53 significant bits, and the fixed spacing of the subnormal
  numbers below \<open>2\<close> to the power \<open>- 1022\<close>.
\<close>

definition ulp_exponent :: "rat \<Rightarrow> int" where
  "ulp_exponent r = max (ilog2 r - 52) (- int subnormal_digits)"

definition round_half_even :: "rat \<Rightarrow> int" where
  "round_half_even q =
     (let f = \<lfloor>q\<rfloor>; d = q - of_int f
      in if d < 1 / 2 then f
         else if 1 / 2 < d then f + 1
         else if even f then f else f + 1)"

text \<open>
  The double nearest to a positive \<open>r\<close>, ties to even; \<open>None\<close> when it is beyond the
  largest double.
\<close>

definition round_magnitude :: "rat \<Rightarrow> rat option" where
  "round_magnitude r =
     (let e = ulp_exponent r;
          v = of_int (round_half_even (r / 2 powi e)) * 2 powi e
      in if overflow_threshold \<le> v then None else Some v)"

definition zero :: "bool \<Rightarrow> number" where
  "zero negative = (if negative then NegZero else Finite 0)"

definition infinity :: "bool \<Rightarrow> number" where
  "infinity negative = (if negative then NegInfinity else PosInfinity)"

text \<open>The Number value of a sign and a magnitude (a real number rounded to a double).\<close>

definition to_number :: "bool \<Rightarrow> rat \<Rightarrow> number" where
  "to_number negative r =
     (if r \<le> 0 then zero negative
      else
        (case round_magnitude r of
           None \<Rightarrow> infinity negative
         | Some v \<Rightarrow>
             if v = 0 then zero negative
             else Finite (if negative then - v else v)))"

definition is_double :: "rat \<Rightarrow> bool" where
  "is_double x =
     (x = 0 \<or>
      (let r = \<bar>x\<bar>; q = r / 2 powi ulp_exponent r
       in of_int \<lfloor>q\<rfloor> = q \<and> r < overflow_threshold))"

subsection \<open>\<^verbatim>\<open>Number::toString\<close>\<close>

text \<open>
  ECMAScript prints a positive double \<open>r\<close> from integers \<open>s\<close> and \<open>n\<close>: \<open>s\<close> has
  \<open>k\<close> decimal digits, the number \<open>s\<close> times ten to \<open>n - k\<close> rounds to \<open>r\<close>, and \<open>k\<close>
  is as small as possible; of several such \<open>s\<close> the one closest to \<open>r\<close> is taken. For
  a given \<open>k\<close> the candidates are the two \<open>k\<close>-digit decimals around \<open>r\<close>.
\<close>

definition magnitude10 :: "rat \<Rightarrow> int" where
  "magnitude10 r =
     (if 1 \<le> r then int (length (decimal (nat \<lfloor>r\<rfloor>)))
      else 1 - int (length (decimal (nat \<lceil>1 / r\<rceil> - 1))))"

definition decimal_value :: "nat \<Rightarrow> int \<Rightarrow> rat" where
  "decimal_value s n = of_nat s * 10 powi (n - int (length (decimal s)))"

definition rounds_to :: "rat \<Rightarrow> nat \<times> int \<Rightarrow> bool" where
  "rounds_to r c = (case c of (s, n) \<Rightarrow> 0 < s \<and> round_magnitude (decimal_value s n) = Some r)"

definition candidates :: "rat \<Rightarrow> nat \<Rightarrow> (nat \<times> int) list" where
  "candidates r k =
     (let n = magnitude10 r;
          q = r * 10 powi (int k - n);
          lo = nat \<lfloor>q\<rfloor>;
          hi = nat \<lceil>q\<rceil>
      in [(lo, n), if hi = 10 ^ k then (10 ^ (k - 1), n + 1) else (hi, n)])"

definition distance :: "rat \<Rightarrow> nat \<times> int \<Rightarrow> rat" where
  "distance r c = (case c of (s, n) \<Rightarrow> \<bar>decimal_value s n - r\<bar>)"

definition closer :: "rat \<Rightarrow> nat \<times> int \<Rightarrow> nat \<times> int \<Rightarrow> nat \<times> int" where
  "closer r a b =
     (if distance r a < distance r b then a
      else if distance r b < distance r a then b
      else if even (fst a) then a else b)"

definition pick :: "rat \<Rightarrow> nat \<Rightarrow> (nat \<times> int) option" where
  "pick r k =
     (case filter (\<lambda>c. length (decimal (fst c)) = k \<and> rounds_to r c) (candidates r k) of
        [] \<Rightarrow> None
      | [a] \<Rightarrow> Some a
      | a # b # cs \<Rightarrow> Some (closer r a b))"

fun shortest :: "rat \<Rightarrow> nat \<Rightarrow> nat \<Rightarrow> (nat \<times> int) option" where
  "shortest r k 0 = None"
| "shortest r k (Suc tries) =
     (case pick r k of
        Some c \<Rightarrow> Some c
      | None \<Rightarrow> shortest r (Suc k) tries)"

text \<open>
  The exact decimal expansion of a double: every double is a multiple of
  \<open>2\<close> to the power \<open>- subnormal_digits\<close>, hence of \<open>10\<close> to that power.
\<close>

definition exact :: "rat \<Rightarrow> nat \<times> int" where
  "exact r =
     (let s = nat \<lfloor>r * 10 ^ subnormal_digits\<rfloor>
      in (s, int (length (decimal s)) - int subnormal_digits))"

text \<open>
  Seventeen digits identify a double, so the search ends by \<open>k = 17\<close>; the exact
  expansion stands behind it.
\<close>

definition digits_of :: "rat \<Rightarrow> nat \<times> int" where
  "digits_of r = (case shortest r 1 17 of Some c \<Rightarrow> c | None \<Rightarrow> exact r)"

definition format_digits :: "nat \<Rightarrow> int \<Rightarrow> jstring" where
  "format_digits s n =
     (let ds = units (decimal s); k = int (length ds)
      in if k \<le> n \<and> n \<le> 21 then ds @ replicate (nat (n - k)) 48
         else if 0 < n \<and> n \<le> 21 then take (nat n) ds @ units ''.'' @ drop (nat n) ds
         else if - 6 < n \<and> n \<le> 0 then units ''0.'' @ replicate (nat (- n)) 48 @ ds
         else
           (let e = n - 1;
                ex = units (if e < 0 then ''-'' else ''+'') @ units (decimal (nat \<bar>e\<bar>))
            in if k = 1 then ds @ units ''e'' @ ex
               else [hd ds] @ units ''.'' @ tl ds @ units ''e'' @ ex))"

definition number_to_string :: "number \<Rightarrow> jstring" where
  "number_to_string x =
     (case x of
        Finite q \<Rightarrow>
          if q = 0 then units ''0''
          else (if q < 0 then units ''-'' else []) @
               (case digits_of \<bar>q\<bar> of (s, n) \<Rightarrow> format_digits s n)
      | NegZero \<Rightarrow> units ''0''
      | PosInfinity \<Rightarrow> units ''Infinity''
      | NegInfinity \<Rightarrow> units ''-Infinity''
      | NaN \<Rightarrow> units ''NaN'')"

subsection \<open>\<^verbatim>\<open>JSON.stringify(value, null, 2)\<close>\<close>

text \<open>
  The serializer of ECMAScript with a gap of two spaces. A string is quoted: its
  quotation marks, backslashes and control characters are escaped, and so is a surrogate
  code unit that is not part of a pair (a leading surrogate followed by a trailing one).
  A finite number is printed by \<^verbatim>\<open>Number::toString\<close>, any other number as
  \<^verbatim>\<open>null\<close>. A non-empty array or object puts each element on a line of its own,
  indented by the gap more than its parent, and the closing bracket on a line at the
  parent's indentation; empty ones are \<^verbatim>\<open>[]\<close> and \<^verbatim>\<open>{}\<close>.
\<close>

definition hex_digit :: "nat \<Rightarrow> nat" where
  "hex_digit d = (if d < 10 then 48 + d else 87 + d)"

definition unicode_escape :: "nat \<Rightarrow> jstring" where
  "unicode_escape c =
     units [CHR 0x5C, CHR ''u''] @
     [hex_digit (c div 4096), hex_digit (c div 256 mod 16), hex_digit (c div 16 mod 16),
      hex_digit (c mod 16)]"

definition is_lead :: "nat \<Rightarrow> bool" where
  "is_lead c = (0xD800 \<le> c \<and> c \<le> 0xDBFF)"

definition is_trail :: "nat \<Rightarrow> bool" where
  "is_trail c = (0xDC00 \<le> c \<and> c \<le> 0xDFFF)"

definition escape_unit :: "nat \<Rightarrow> jstring" where
  "escape_unit c =
     (if c = 0x22 then units [CHR 0x5C, CHR 0x22]
      else if c = 0x5C then units [CHR 0x5C, CHR 0x5C]
      else if c = 0x08 then units [CHR 0x5C, CHR ''b'']
      else if c = 0x0C then units [CHR 0x5C, CHR ''f'']
      else if c = 0x0A then units [CHR 0x5C, CHR ''n'']
      else if c = 0x0D then units [CHR 0x5C, CHR ''r'']
      else if c = 0x09 then units [CHR 0x5C, CHR ''t'']
      else if c < 0x20 \<or> is_lead c \<or> is_trail c then unicode_escape c
      else [c])"

fun quote_units :: "jstring \<Rightarrow> jstring" where
  "quote_units [] = []"
| "quote_units [c] = escape_unit c"
| "quote_units (c # d # cs) =
     (if is_lead c \<and> is_trail d then c # d # quote_units cs
      else escape_unit c @ quote_units (d # cs))"

definition quoteJSONString :: "jstring \<Rightarrow> jstring" where
  "quoteJSONString s = units [CHR 0x22] @ quote_units s @ units [CHR 0x22]"

definition is_finite :: "number \<Rightarrow> bool" where
  "is_finite x = (case x of Finite q \<Rightarrow> True | NegZero \<Rightarrow> True | _ \<Rightarrow> False)"

definition gap :: jstring where
  "gap = units ''  ''"

definition newline :: jstring where
  "newline = units [CHR 0x0A]"

fun stringify :: "jstring \<Rightarrow> jsvalue \<Rightarrow> jstring"
and stringify_elements :: "jstring \<Rightarrow> jsvalue list \<Rightarrow> jstring"
and stringify_members :: "jstring \<Rightarrow> (jstring \<times> jsvalue) list \<Rightarrow> jstring" where
  "stringify ind VNull = units ''null''"
| "stringify ind (VBool b) = units (if b then ''true'' else ''false'')"
| "stringify ind (VNum x) = (if is_finite x then number_to_string x else units ''null'')"
| "stringify ind (VStr s) = quoteJSONString s"
| "stringify ind (VArr []) = units ''[]''"
| "stringify ind (VArr (x # xs)) =
     units ''['' @ newline @ (ind @ gap) @ stringify_elements (ind @ gap) (x # xs) @
     newline @ ind @ units '']''"
| "stringify ind (VObj []) = units ''{}''"
| "stringify ind (VObj (m # ms)) =
     units ''{'' @ newline @ (ind @ gap) @ stringify_members (ind @ gap) (m # ms) @
     newline @ ind @ units ''}''"
| "stringify_elements ind [] = []"
| "stringify_elements ind [x] = stringify ind x"
| "stringify_elements ind (x # y # ys) =
     stringify ind x @ units '','' @ newline @ ind @ stringify_elements ind (y # ys)"
| "stringify_members ind [] = []"
| "stringify_members ind [(k, v)] = quoteJSONString k @ units '': '' @ stringify ind v"
| "stringify_members ind ((k, v) # m # ms) =
     quoteJSONString k @ units '': '' @ stringify ind v @ units '','' @ newline @ ind @
     stringify_members ind (m # ms)"

definition JSON_stringify :: "jsvalue \<Rightarrow> jstring" where
  "JSON_stringify v = stringify [] v"

subsection \<open>\<^verbatim>\<open>JSON.parse\<close>\<close>

text \<open>
  The parser of ECMAScript's JSON grammar: white space (space, tab, line feed, carriage
  return) may surround every token; a string is read up to its closing quotation mark,
  with the escapes \<^verbatim>\<open>\" \\ \/ \b \f \n \r \t \uXXXX\<close> decoded and unescaped control
  characters refused; a number is an optional minus sign, an integer part without a
  superfluous leading zero, an optional fraction and an optional exponent, and its value
  is the double nearest to the decimal it denotes; \<^verbatim>\<open>-0\<close> is negative zero.
  \<open>None\<close> is a \<^verbatim>\<open>SyntaxError\<close>.
\<close>

definition is_ws :: "nat \<Rightarrow> bool" where
  "is_ws c = (c = 0x20 \<or> c = 0x09 \<or> c = 0x0A \<or> c = 0x0D)"

definition skip_ws :: "jstring \<Rightarrow> jstring" where
  "skip_ws s = dropWhile is_ws s"

definition hex_value :: "nat \<Rightarrow> nat option" where
  "hex_value c =
     (if 48 \<le> c \<and> c \<le> 57 then Some (c - 48)
      else if 97 \<le> c \<and> c \<le> 102 then Some (c - 87)
      else if 65 \<le> c \<and> c \<le> 70 then Some (c - 55)
      else None)"

definition hex4 :: "nat \<Rightarrow> nat \<Rightarrow> nat \<Rightarrow> nat \<Rightarrow> nat option" where
  "hex4 a b c d =
     (case (hex_value a, hex_value b, hex_value c, hex_value d) of
        (Some p, Some q, Some r, Some s) \<Rightarrow> Some (((p * 16 + q) * 16 + r) * 16 + s)
      | _ \<Rightarrow> None)"

definition unescape :: "nat \<Rightarrow> nat option" where
  "unescape e =
     (if e = 0x22 then Some 0x22
      else if e = 0x5C then Some 0x5C
      else if e = of_char (CHR ''/'') then Some (of_char (CHR ''/''))
      else if e = of_char (CHR ''b'') then Some 0x08
      else if e = of_char (CHR ''f'') then Some 0x0C
      else if e = of_char (CHR ''n'') then Some 0x0A
      else if e = of_char (CHR ''r'') then Some 0x0D
      else if e = of_char (CHR ''t'') then Some 0x09
      else None)"

definition consumed :: "'a \<Rightarrow> ('a list \<times> jstring) option \<Rightarrow> ('a list \<times> jstring) option" where
  "consumed x r = (case r of None \<Rightarrow> None | Some (xs, rest) \<Rightarrow> Some (x # xs, rest))"

text \<open>The code units of a string after its opening quotation mark.\<close>

fun parse_chars :: "jstring \<Rightarrow> (jstring \<times> jstring) option" where
  "parse_chars [] = None"
| "parse_chars (c # cs) =
     (if c = 0x22 then Some ([], cs)
      else if c = 0x5C then
        (case cs of
           [] \<Rightarrow> None
         | e # cs' \<Rightarrow>
             if e = of_char (CHR ''u'') then
               (case cs' of
                  h1 # h2 # h3 # h4 # cs'' \<Rightarrow>
                    (case hex4 h1 h2 h3 h4 of
                       None \<Rightarrow> None
                     | Some n \<Rightarrow> consumed n (parse_chars cs''))
                | _ \<Rightarrow> None)
             else
               (case unescape e of
                  None \<Rightarrow> None
                | Some x \<Rightarrow> consumed x (parse_chars cs')))
      else if c < 0x20 then None
      else consumed c (parse_chars cs))"

definition is_digit_unit :: "nat \<Rightarrow> bool" where
  "is_digit_unit c = (48 \<le> c \<and> c \<le> 57)"

definition digits_value :: "jstring \<Rightarrow> nat" where
  "digits_value ds = foldl (\<lambda>acc c. 10 * acc + (c - 48)) 0 ds"

text \<open>The digits of the integer part: a single \<open>0\<close>, or digits that start with another one.\<close>

definition parse_int_part :: "jstring \<Rightarrow> (jstring \<times> jstring) option" where
  "parse_int_part s =
     (case s of
        [] \<Rightarrow> None
      | c # cs \<Rightarrow>
          if c = 48 then Some ([c], cs)
          else if is_digit_unit c then Some (takeWhile is_digit_unit s, dropWhile is_digit_unit s)
          else None)"

text \<open>The digits of the fraction, none when there is no point.\<close>

definition parse_fraction :: "jstring \<Rightarrow> (jstring \<times> jstring) option" where
  "parse_fraction s =
     (case s of
        [] \<Rightarrow> Some ([], s)
      | c # cs \<Rightarrow>
          if c = of_char (CHR ''.'') then
            (if takeWhile is_digit_unit cs = [] then None
             else Some (takeWhile is_digit_unit cs, dropWhile is_digit_unit cs))
          else Some ([], s))"

definition parse_exponent_digits :: "bool \<Rightarrow> jstring \<Rightarrow> (int \<times> jstring) option" where
  "parse_exponent_digits negative s =
     (if takeWhile is_digit_unit s = [] then None
      else Some ((if negative then - int (digits_value (takeWhile is_digit_unit s))
                  else int (digits_value (takeWhile is_digit_unit s))),
                 dropWhile is_digit_unit s))"

text \<open>The exponent, zero when there is no exponent mark.\<close>

definition parse_exponent :: "jstring \<Rightarrow> (int \<times> jstring) option" where
  "parse_exponent s =
     (case s of
        [] \<Rightarrow> Some (0, s)
      | c # cs \<Rightarrow>
          if c = of_char (CHR ''e'') \<or> c = of_char (CHR ''E'') then
            (case cs of
               [] \<Rightarrow> None
             | d # ds \<Rightarrow>
                 if d = of_char (CHR ''+'') then parse_exponent_digits False ds
                 else if d = of_char (CHR ''-'') then parse_exponent_digits True ds
                 else parse_exponent_digits False cs)
          else Some (0, s))"

text \<open>The decimal an unsigned number denotes.\<close>

definition parse_magnitude :: "jstring \<Rightarrow> (rat \<times> jstring) option" where
  "parse_magnitude s =
     (case parse_int_part s of
        None \<Rightarrow> None
      | Some (ds, s1) \<Rightarrow>
          (case parse_fraction s1 of
             None \<Rightarrow> None
           | Some (fs, s2) \<Rightarrow>
               (case parse_exponent s2 of
                  None \<Rightarrow> None
                | Some (e, s3) \<Rightarrow>
                    Some (of_nat (digits_value (ds @ fs)) * 10 powi (e - int (length fs)), s3))))"

definition parse_number :: "jstring \<Rightarrow> (jsvalue \<times> jstring) option" where
  "parse_number s =
     (case s of
        [] \<Rightarrow> None
      | c # cs \<Rightarrow>
          if c = of_char (CHR ''-'') then
            (case parse_magnitude cs of
               None \<Rightarrow> None
             | Some (r, rest) \<Rightarrow> Some (VNum (to_number True r), rest))
          else
            (case parse_magnitude s of
               None \<Rightarrow> None
             | Some (r, rest) \<Rightarrow> Some (VNum (to_number False r), rest)))"

definition parse_literal :: "jstring \<Rightarrow> (jsvalue \<times> jstring) option" where
  "parse_literal s =
     (if take 4 s = units ''null'' then Some (VNull, drop 4 s)
      else if take 4 s = units ''true'' then Some (VBool True, drop 4 s)
      else if take 5 s = units ''false'' then Some (VBool False, drop 5 s)
      else None)"

text \<open>
  The properties of an object are enumerated with the array indices first, in
  ascending order, and then the other keys in the order of their creation. An array index
  is the decimal of a number below \<open>2 ^ 32 - 1\<close>.
\<close>

definition index_of :: "jstring \<Rightarrow> nat option" where
  "index_of k =
     (if k = units (decimal (digits_value k)) \<and> digits_value k < 4294967295
      then Some (digits_value k) else None)"

definition js_order :: "(jstring \<times> 'v) list \<Rightarrow> (jstring \<times> 'v) list" where
  "js_order kvs =
     sort_key (\<lambda>kv. the (index_of (fst kv))) (filter (\<lambda>kv. index_of (fst kv) \<noteq> None) kvs) @
     filter (\<lambda>kv. index_of (fst kv) = None) kvs"

text \<open>The object \<^verbatim>\<open>{...a, k: v}\<close>: \<open>a\<close> with the field \<open>k\<close> set to \<open>v\<close>.\<close>

fun set_entry :: "('k \<times> 'v) list \<Rightarrow> 'k \<Rightarrow> 'v \<Rightarrow> ('k \<times> 'v) list" where
  "set_entry [] k v = [(k, v)]"
| "set_entry ((k', v') # kvs) k v =
     (if k' = k then (k, v) # kvs else (k', v') # set_entry kvs k v)"

fun with_field :: "json \<Rightarrow> string \<Rightarrow> json \<Rightarrow> json" where
  "with_field (JObj kvs) k v = JObj (set_entry kvs k v)"
| "with_field a k v = a"

text \<open>
  The object made of the members of the text, created in that order: a repeated key
  keeps its first place and its last value.
\<close>

definition object_of :: "(jstring \<times> jsvalue) list \<Rightarrow> jsvalue" where
  "object_of ms = VObj (js_order (foldl (\<lambda>kvs (k, v). set_entry kvs k v) [] ms))"

text \<open>
  The value parser descends recursively; the first argument bounds the depth of the
  descent. \<open>parse_elements\<close> reads the elements of an array after its opening bracket up
  to the closing one, \<open>parse_members\<close> the members of an object likewise.
\<close>

fun parse_value :: "nat \<Rightarrow> jstring \<Rightarrow> (jsvalue \<times> jstring) option"
and parse_elements :: "nat \<Rightarrow> jstring \<Rightarrow> (jsvalue list \<times> jstring) option"
and parse_members :: "nat \<Rightarrow> jstring \<Rightarrow> ((jstring \<times> jsvalue) list \<times> jstring) option" where
  "parse_value 0 s = None"
| "parse_value (Suc n) s =
     (case skip_ws s of
        [] \<Rightarrow> None
      | c # cs \<Rightarrow>
          if c = of_char (CHR ''['') then
            (case skip_ws cs of
               [] \<Rightarrow> None
             | d # ds \<Rightarrow>
                 if d = of_char (CHR '']'') then Some (VArr [], ds)
                 else (case parse_elements n cs of
                         None \<Rightarrow> None
                       | Some (xs, rest) \<Rightarrow> Some (VArr xs, rest)))
          else if c = of_char (CHR ''{'') then
            (case skip_ws cs of
               [] \<Rightarrow> None
             | d # ds \<Rightarrow>
                 if d = of_char (CHR ''}'') then Some (VObj [], ds)
                 else (case parse_members n cs of
                         None \<Rightarrow> None
                       | Some (ms, rest) \<Rightarrow> Some (object_of ms, rest)))
          else if c = 0x22 then
            (case parse_chars cs of
               None \<Rightarrow> None
             | Some (str, rest) \<Rightarrow> Some (VStr str, rest))
          else if c = of_char (CHR ''-'') \<or> is_digit_unit c then parse_number (c # cs)
          else parse_literal (c # cs))"
| "parse_elements 0 s = None"
| "parse_elements (Suc n) s =
     (case parse_value n s of
        None \<Rightarrow> None
      | Some (x, rest) \<Rightarrow>
          (case skip_ws rest of
             [] \<Rightarrow> None
           | c # cs \<Rightarrow>
               if c = of_char (CHR '','') then consumed x (parse_elements n cs)
               else if c = of_char (CHR '']'') then Some ([x], cs)
               else None))"
| "parse_members 0 s = None"
| "parse_members (Suc n) s =
     (case skip_ws s of
        [] \<Rightarrow> None
      | q # cs \<Rightarrow>
          if q \<noteq> 0x22 then None
          else
            (case parse_chars cs of
               None \<Rightarrow> None
             | Some (k, rest) \<Rightarrow>
                 (case skip_ws rest of
                    [] \<Rightarrow> None
                  | colon # rest' \<Rightarrow>
                      if colon \<noteq> of_char (CHR '':'') then None
                      else
                        (case parse_value n rest' of
                           None \<Rightarrow> None
                         | Some (v, rest'') \<Rightarrow>
                             (case skip_ws rest'' of
                                [] \<Rightarrow> None
                              | c # cs' \<Rightarrow>
                                  if c = of_char (CHR '','') then consumed (k, v) (parse_members n cs')
                                  else if c = of_char (CHR ''}'') then Some ([(k, v)], cs')
                                  else None)))))"

text \<open>
  \<^verbatim>\<open>JSON.parse(text)\<close>: one value, then nothing but white space. No descent is deeper
  than the text is long.
\<close>

definition JSON_parse :: "jstring \<Rightarrow> jsvalue option" where
  "JSON_parse text =
     (case parse_value (Suc (length text)) text of
        None \<Rightarrow> None
      | Some (v, rest) \<Rightarrow> if skip_ws rest = [] then Some v else None)"

subsection \<open>JSON-representable payloads\<close>

text \<open>
  A JavaScript value is JSON-representable when some JSON text denotes it: its numbers
  are finite (doubles, or negative zero), and it is a well-formed value (code units
  below 65536, and in each object distinct keys in the order of enumeration).
\<close>

fun representable :: "jsvalue \<Rightarrow> bool"
and representable_elements :: "jsvalue list \<Rightarrow> bool"
and representable_members :: "(jstring \<times> jsvalue) list \<Rightarrow> bool" where
  "representable VNull = True"
| "representable (VBool b) = True"
| "representable (VNum x) =
     (case x of Finite q \<Rightarrow> is_double q | NegZero \<Rightarrow> True | _ \<Rightarrow> False)"
| "representable (VStr s) = list_all (\<lambda>c. c < 65536) s"
| "representable (VArr xs) = representable_elements xs"
| "representable (VObj ms) =
     (distinct (map fst ms) \<and> js_order ms = ms \<and> representable_members ms)"
| "representable_elements [] = True"
| "representable_elements (x # xs) = (representable x \<and> representable_elements xs)"
| "representable_members [] = True"
| "representable_members ((k, v) # ms) =
     (list_all (\<lambda>c. c < 65536) k \<and> representable v \<and> representable_members ms)"

text \<open>Whether a value contains the number negative zero.\<close>

fun has_negative_zero :: "jsvalue \<Rightarrow> bool"
and elements_have_negative_zero :: "jsvalue list \<Rightarrow> bool"
and members_have_negative_zero :: "(jstring \<times> jsvalue) list \<Rightarrow> bool" where
  "has_negative_zero VNull = False"
| "has_negative_zero (VBool b) = False"
| "has_negative_zero (VNum x) = (x = NegZero)"
| "has_negative_zero (VStr s) = False"
| "has_negative_zero (VArr xs) = elements_have_negative_zero xs"
| "has_negative_zero (VObj ms) = members_have_negative_zero ms"
| "elements_have_negative_zero [] = False"
| "elements_have_negative_zero (x # xs) = (has_negative_zero x \<or> elements_have_negative_zero xs)"
| "members_have_negative_zero [] = False"
| "members_have_negative_zero ((k, v) # ms) = (has_negative_zero v \<or> members_have_negative_zero ms)"

text \<open>
  Notions of the round-trip proof: a string of white space only; what may follow a run
  of digits (not a digit); what may follow a number (not a digit, a point or an exponent
  mark); a code unit a value can start with.
\<close>

definition ws_only :: "jstring \<Rightarrow> bool" where
  "ws_only w = list_all is_ws w"

definition digit_stop :: "jstring \<Rightarrow> bool" where
  "digit_stop b = (case b of [] \<Rightarrow> True | c # cs \<Rightarrow> \<not> is_digit_unit c)"

definition number_end :: "jstring \<Rightarrow> bool" where
  "number_end rest =
     (case rest of
        [] \<Rightarrow> True
      | c # cs \<Rightarrow>
          \<not> is_digit_unit c \<and> c \<noteq> of_char (CHR ''.'') \<and> c \<noteq> of_char (CHR ''e'') \<and>
          c \<noteq> of_char (CHR ''E''))"

definition value_start :: "nat \<Rightarrow> bool" where
  "value_start c = (\<not> is_ws c \<and> c \<noteq> of_char (CHR '']'') \<and> c \<noteq> of_char (CHR ''}''))"

text \<open>
  The restricted values of the dispatcher as JavaScript values; an integer stands for
  the double nearest to it.
\<close>

fun js_of :: "json \<Rightarrow> jsvalue" where
  "js_of JNull = VNull"
| "js_of (JBool b) = VBool b"
| "js_of (JNum n) = VNum (to_number (n < 0) (of_int \<bar>n\<bar>))"
| "js_of (JStr s) = VStr (units s)"
| "js_of (JArr xs) = VArr (map js_of xs)"
| "js_of (JObj kvs) = VObj (map (\<lambda>(k, v). (units k, js_of v)) kvs)"

text \<open>
  A payload for examples: fractions, the double nearest to one tenth, a number printed
  with an exponent, keys that are array indices, a string with code units above 255, a
  surrogate pair, a lone surrogate, a line feed and a quotation mark.
\<close>

definition example_payload :: jsvalue where
  "example_payload =
     VObj [(units ''7'', VNum (Finite (1 / 2))),
           (units ''12'', VNum (Finite (3602879701896397 / 36028797018963968))),
           (units ''payload'',
            VObj [(units ''source'', VStr [110, 115, 233, 8364, 55357, 56832, 55296, 10, 34]),
                  (units ''departures'',
                   VArr [VObj [(units ''direction'', VStr (units ''Den Haag Centraal'')),
                               (units ''delay'', VNum (Finite (- 5 / 2))),
                               (units ''cancelled'', VBool False)],
                         VArr [], VNull, VNum (Finite 0),
                         VNum (Finite 1000000000000000000000)]),
                  (units ''meta'', VObj [])])]"

section \<open>The response formatter (utils/ResponseFormatter.ts)\<close>

text \<open>
  Modelled from the spec: \<^verbatim>\<open>ResponseFormatter.formatSuccess\<close>, whose source file
  is not among the sources. The spec: it wraps an arbitrary payload into the protocol's
  content envelope, a single text-content item containing the JSON-serialized payload,
  pretty-printed.
\<close>

definition formatSuccess_spec :: "jsvalue \<Rightarrow> thrown + envelope" where
  "formatSuccess_spec payload = Inr (SuccessEnvelope [TextContent (JSON_stringify payload)])"

text \<open>
  Modelled from the spec: the message \<^verbatim>\<open>ResponseFormatter.formatError\<close> gives an
  unrecognized failure. The spec fixes no text for it, only that it is stable: the same
  for every unrecognized failure.
\<close>

definition UNRECOGNIZED_FAILURE :: string where
  "UNRECOGNIZED_FAILURE = ''Internal error''"

text \<open>
  Modelled from the spec: \<^verbatim>\<open>ResponseFormatter.formatError\<close>, whose source file
  is not among the sources. The spec: a protocol-level error is passed through; an
  upstream HTTP error becomes an internal error that keeps the upstream message; any
  other failure becomes an internal error with a stable message; the function never
  throws and always returns an error envelope.
\<close>

fun formatError_spec :: "thrown \<Rightarrow> thrown + envelope" where
  "formatError_spec (McpError code message) = Inr (ErrorEnvelope code message)"
| "formatError_spec (AxiosError status message) = Inr (ErrorEnvelope InternalError message)"
| "formatError_spec (JsError message) = Inr (ErrorEnvelope InternalError UNRECOGNIZED_FAILURE)"
| "formatError_spec (ThrownValue v) = Inr (ErrorEnvelope InternalError UNRECOGNIZED_FAILURE)"

text \<open>
  Modelled from the spec: the formatter made of the two functions above, for the
  dispatcher's payloads.
\<close>

definition spec_formatter :: ResponseFormatter where
  "spec_formatter =
     \<lparr>formatSuccess = (\<lambda>payload. formatSuccess_spec (js_of payload)),
      formatError = formatError_spec\<rparr>"

section \<open>The argument validators (types.ts)\<close>

text \<open>
  The validators of \<^verbatim>\<open>types.ts\<close> are not among the sources. The spec describes
  them: one pure predicate per tool on the raw argument bag, a conjunction of rules of
  the forms "field X, if present, must be of primitive type T", "field X must be one of
  an enumerated set", "at least one of fields A, B must be present"; required fields
  must be present, an absent optional field is valid, and a validated bag satisfies the
  tool's input contract, numeric bounds included. The fields, types, enumerations and
  bounds of each tool are those of the tool catalog.
\<close>

text \<open>Modelled from the spec: the argument is a bag, a mapping from field names to values.\<close>

fun is_bag :: "json \<Rightarrow> bool" where
  "is_bag (JObj kvs) = True"
| "is_bag _ = False"

text \<open>Modelled from the spec: a field is present.\<close>

definition present :: "json \<Rightarrow> string \<Rightarrow> bool" where
  "present a k = (member a k \<noteq> None)"

text \<open>Modelled from the spec: a required field is present and a string.\<close>

definition required_string :: "json \<Rightarrow> string \<Rightarrow> bool" where
  "required_string a k = (case member a k of Some (JStr s) \<Rightarrow> True | _ \<Rightarrow> False)"

text \<open>Modelled from the spec: a field, if present, must be a string.\<close>

definition optional_string :: "json \<Rightarrow> string \<Rightarrow> bool" where
  "optional_string a k =
     (case member a k of None \<Rightarrow> True | Some (JStr s) \<Rightarrow> True | Some _ \<Rightarrow> False)"

text \<open>Modelled from the spec: a field, if present, must be a boolean.\<close>

definition optional_boolean :: "json \<Rightarrow> string \<Rightarrow> bool" where
  "optional_boolean a k =
     (case member a k of None \<Rightarrow> True | Some (JBool b) \<Rightarrow> True | Some _ \<Rightarrow> False)"

text \<open>Modelled from the spec: a field, if present, must be one of an enumerated set.\<close>

definition optional_enum :: "json \<Rightarrow> string \<Rightarrow> string list \<Rightarrow> bool" where
  "optional_enum a k allowed =
     (case member a k of None \<Rightarrow> True | Some (JStr s) \<Rightarrow> s \<in> set allowed | Some _ \<Rightarrow> False)"

text \<open>Modelled from the spec: a field, if present, must be an integer with a lower bound.\<close>

definition optional_int_from :: "json \<Rightarrow> string \<Rightarrow> int \<Rightarrow> bool" where
  "optional_int_from a k lo =
     (case member a k of None \<Rightarrow> True | Some (JNum n) \<Rightarrow> lo \<le> n | Some _ \<Rightarrow> False)"

text \<open>Modelled from the spec: a field, if present, must be an integer within bounds.\<close>

definition optional_int_between :: "json \<Rightarrow> string \<Rightarrow> int \<Rightarrow> int \<Rightarrow> bool" where
  "optional_int_between a k lo hi =
     (case member a k of None \<Rightarrow> True | Some (JNum n) \<Rightarrow> lo \<le> n \<and> n \<le> hi | Some _ \<Rightarrow> False)"

text \<open>
  Modelled from the spec: \<^verbatim>\<open>isValidDisruptionsArgs\<close>. The tool catalog:
  optional \<^verbatim>\<open>isActive\<close>, a boolean; optional \<^verbatim>\<open>type\<close>, one of MAINTENANCE and
  DISRUPTION.
\<close>

definition isValidDisruptionsArgs_spec :: "json \<Rightarrow> bool" where
  "isValidDisruptionsArgs_spec a =
     (is_bag a \<and> optional_boolean a ''isActive'' \<and>
      optional_enum a ''type'' [''MAINTENANCE'', ''DISRUPTION''])"

text \<open>
  Modelled from the spec: \<^verbatim>\<open>isValidTravelAdviceArgs\<close>. The tool catalog:
  required \<^verbatim>\<open>fromStation\<close> and \<^verbatim>\<open>toStation\<close>; optional \<^verbatim>\<open>dateTime\<close>;
  optional \<^verbatim>\<open>searchForArrival\<close>, a boolean.
\<close>

definition isValidTravelAdviceArgs_spec :: "json \<Rightarrow> bool" where
  "isValidTravelAdviceArgs_spec a =
     (is_bag a \<and> required_string a ''fromStation'' \<and> required_string a ''toStation'' \<and>
      optional_string a ''dateTime'' \<and> optional_boolean a ''searchForArrival'')"

text \<open>
  Modelled from the spec: the rules of the departures and arrivals validators other
  than the choice between \<^verbatim>\<open>station\<close> and \<^verbatim>\<open>uicCode\<close>. The tool catalog:
  optional \<^verbatim>\<open>dateTime\<close>; optional \<^verbatim>\<open>maxJourneys\<close>, an integer from 1 to 100;
  optional \<^verbatim>\<open>lang\<close>, one of nl and en.
\<close>

definition board_fields_well_typed :: "json \<Rightarrow> bool" where
  "board_fields_well_typed a =
     (is_bag a \<and> optional_string a ''station'' \<and> optional_string a ''uicCode'' \<and>
      optional_string a ''dateTime'' \<and> optional_int_between a ''maxJourneys'' 1 100 \<and>
      optional_enum a ''lang'' [''nl'', ''en''])"

text \<open>
  Modelled from the spec: \<^verbatim>\<open>isValidDeparturesArgs\<close>. The tool catalog:
  \<^verbatim>\<open>station\<close> or \<^verbatim>\<open>uicCode\<close> required, at least one of the two present.
\<close>

definition isValidDeparturesArgs_spec :: "json \<Rightarrow> bool" where
  "isValidDeparturesArgs_spec a =
     (is_bag a \<and> (present a ''station'' \<or> present a ''uicCode'') \<and>
      optional_string a ''station'' \<and> optional_string a ''uicCode'' \<and>
      optional_string a ''dateTime'' \<and> optional_int_between a ''maxJourneys'' 1 100 \<and>
      optional_enum a ''lang'' [''nl'', ''en''])"

text \<open>
  Modelled from the spec: \<^verbatim>\<open>isValidOVFietsArgs\<close>. The tool catalog: required
  \<^verbatim>\<open>stationCode\<close>.
\<close>

definition isValidOVFietsArgs_spec :: "json \<Rightarrow> bool" where
  "isValidOVFietsArgs_spec a = (is_bag a \<and> required_string a ''stationCode'')"

text \<open>
  Modelled from the spec: \<^verbatim>\<open>isValidStationInfoArgs\<close>. The tool catalog: required
  \<^verbatim>\<open>query\<close>; optional \<^verbatim>\<open>includeNonPlannableStations\<close>, a boolean; optional
  \<^verbatim>\<open>limit\<close>, an integer from 1 to 50.
\<close>

definition isValidStationInfoArgs_spec :: "json \<Rightarrow> bool" where
  "isValidStationInfoArgs_spec a =
     (is_bag a \<and> required_string a ''query'' \<and>
      optional_boolean a ''includeNonPlannableStations'' \<and>
      optional_int_between a ''limit'' 1 50)"

text \<open>
  Modelled from the spec: \<^verbatim>\<open>isValidArrivalsArgs\<close>, with the rules of the
  departures validator.
\<close>

definition isValidArrivalsArgs_spec :: "json \<Rightarrow> bool" where
  "isValidArrivalsArgs_spec a =
     (is_bag a \<and> (present a ''station'' \<or> present a ''uicCode'') \<and>
      optional_string a ''station'' \<and> optional_string a ''uicCode'' \<and>
      optional_string a ''dateTime'' \<and> optional_int_between a ''maxJourneys'' 1 100 \<and>
      optional_enum a ''lang'' [''nl'', ''en''])"

text \<open>
  Modelled from the spec: \<^verbatim>\<open>isValidPricesArgs\<close>. The tool catalog: required
  \<^verbatim>\<open>fromStation\<close> and \<^verbatim>\<open>toStation\<close>; optional \<^verbatim>\<open>travelClass\<close> and
  \<^verbatim>\<open>travelType\<close>, enumerations; optional \<^verbatim>\<open>isJointJourney\<close>, a boolean;
  optional \<^verbatim>\<open>adults\<close>, an integer of at least 1; optional \<^verbatim>\<open>children\<close>, an
  integer of at least 0; optional \<^verbatim>\<open>routeId\<close>, \<^verbatim>\<open>plannedDepartureTime\<close> and
  \<^verbatim>\<open>plannedArrivalTime\<close>.
\<close>

definition isValidPricesArgs_spec :: "json \<Rightarrow> bool" where
  "isValidPricesArgs_spec a =
     (is_bag a \<and> required_string a ''fromStation'' \<and> required_string a ''toStation'' \<and>
      optional_enum a ''travelClass'' [''FIRST_CLASS'', ''SECOND_CLASS''] \<and>
      optional_enum a ''travelType'' [''single'', ''return''] \<and>
      optional_boolean a ''isJointJourney'' \<and>
      optional_int_from a ''adults'' 1 \<and> optional_int_from a ''children'' 0 \<and>
      optional_string a ''routeId'' \<and> optional_string a ''plannedDepartureTime'' \<and>
      optional_string a ''plannedArrivalTime'')"

text \<open>The bag \<^verbatim>\<open>{fromStation: "ASD", toStation: "UT"}\<close>, for examples.\<close>

definition minimal_prices_bag :: json where
  "minimal_prices_bag = JObj [(''fromStation'', JStr ''ASD''), (''toStation'', JStr ''UT'')]"

text \<open>Modelled from the spec: the seven validators together.\<close>

definition spec_validators :: validators where
  "spec_validators =
     \<lparr>isValidDisruptionsArgs = isValidDisruptionsArgs_spec,
      isValidTravelAdviceArgs = isValidTravelAdviceArgs_spec,
      isValidDeparturesArgs = isValidDeparturesArgs_spec,
      isValidOVFietsArgs = isValidOVFietsArgs_spec,
      isValidStationInfoArgs = isValidStationInfoArgs_spec,
      isValidArrivalsArgs = isValidArrivalsArgs_spec,
      isValidPricesArgs = isValidPricesArgs_spec\<rparr>"

section \<open>The session-managed HTTP transport (the /mcp routes of http-server.ts)\<close>

text \<open>
  \<^verbatim>\<open>this.transports\<close> is a JavaScript \<^verbatim>\<open>Map\<close> from session identifiers to
  transport objects: its entries in insertion order. \<^verbatim>\<open>set\<close> replaces the value
  of an existing key in place or appends a new entry; \<^verbatim>\<open>delete\<close> removes the
  entry of the key. Transport objects are identified by the order of their construction.
\<close>

type_synonym transport = nat

definition map_has :: "(string \<times> transport) list \<Rightarrow> string \<Rightarrow> bool" where
  "map_has m k = (k \<in> fst ` set m)"

definition map_get :: "(string \<times> transport) list \<Rightarrow> string \<Rightarrow> transport option" where
  "map_get m k = map_of m k"

fun map_set :: "(string \<times> transport) list \<Rightarrow> string \<Rightarrow> transport \<Rightarrow> (string \<times> transport) list" where
  "map_set [] k v = [(k, v)]"
| "map_set ((k', v') # m) k v = (if k' = k then (k, v) # m else (k', v') # map_set m k v)"

fun map_delete :: "(string \<times> transport) list \<Rightarrow> string \<Rightarrow> (string \<times> transport) list" where
  "map_delete [] k = []"
| "map_delete ((k', v') # m) k = (if k' = k then map_delete m k else (k', v') # map_delete m k)"

text \<open>
  The server's state: the session map, the \<^verbatim>\<open>sessionId\<close> property of each transport
  object (set by the SDK when the session is initialized), and the number of transport
  objects constructed so far.
\<close>

record server_state =
  transports :: "(string \<times> transport) list"
  sessionId_of :: "transport \<Rightarrow> string option"
  constructed :: nat

datatype http_method = POST | GET | DELETE

record http_request =
  http_method :: http_method
  mcp_session_id :: "string option"
  body :: json

datatype http_response =
    Response nat string
  | TransportResponse nat

text \<open>
  The SDK is an input of the model. While it handles a request, a transport may call
  back: \<^verbatim>\<open>onsessioninitialized(id)\<close> after it generated the identifier and stored it
  in its \<^verbatim>\<open>sessionId\<close>, \<^verbatim>\<open>onsessionclosed(id)\<close>, and \<^verbatim>\<open>onclose()\<close>.
  Then it has written a response, or it throws, before or after the response headers
  were sent.
\<close>

datatype sdk_event = SessionInitialized string | SessionClosed string | Closed

datatype sdk_outcome = Responded nat | ThrewBeforeHeaders | ThrewAfterHeaders nat

record sdk =
  isInitializeRequest :: "json \<Rightarrow> bool"
  connect :: "transport \<Rightarrow> bool"
  handleRequest :: "transport \<Rightarrow> http_request \<Rightarrow> sdk_event list \<times> sdk_outcome"

text \<open>The three callbacks the POST route registers on a transport it creates.\<close>

fun callback :: "transport \<Rightarrow> server_state \<Rightarrow> sdk_event \<Rightarrow> server_state" where
  "callback t s (SessionInitialized sid) =
     s\<lparr>transports := map_set (transports s) sid t,
       sessionId_of := (sessionId_of s)(t := Some sid)\<rparr>"
| "callback t s (SessionClosed sid) = s\<lparr>transports := map_delete (transports s) sid\<rparr>"
| "callback t s Closed =
     (case sessionId_of s t of
        None \<Rightarrow> s
      | Some sid \<Rightarrow> if sid \<noteq> [] then s\<lparr>transports := map_delete (transports s) sid\<rparr> else s)"

text \<open>
  \<^verbatim>\<open>await transport.handleRequest(req, res, ...)\<close> inside the route's
  \<^verbatim>\<open>try\<close>: the callbacks run, and an exception gives status 500 with the text
  \<open>failure\<close> unless the headers were sent already.
\<close>

definition handle_with ::
  "sdk \<Rightarrow> string \<Rightarrow> transport \<Rightarrow> server_state \<Rightarrow> http_request \<Rightarrow> http_response \<times> server_state" where
  "handle_with K failure t s req =
     (case handleRequest K t req of
        (events, outcome) \<Rightarrow>
          (case outcome of
             Responded status \<Rightarrow> TransportResponse status
           | ThrewBeforeHeaders \<Rightarrow> Response 500 failure
           | ThrewAfterHeaders status \<Rightarrow> TransportResponse status,
           foldl (callback t) s events))"

text \<open>\<^verbatim>\<open>sessionId\<close> as a condition: a header that is absent or empty is falsy.\<close>

definition given :: "string option \<Rightarrow> bool" where
  "given h = (case h of None \<Rightarrow> False | Some sid \<Rightarrow> sid \<noteq> [])"

definition has_session :: "server_state \<Rightarrow> string option \<Rightarrow> bool" where
  "has_session s h = (case h of None \<Rightarrow> False | Some sid \<Rightarrow> map_has (transports s) sid)"

definition get_session :: "server_state \<Rightarrow> string option \<Rightarrow> transport option" where
  "get_session s h = (case h of None \<Rightarrow> None | Some sid \<Rightarrow> map_get (transports s) sid)"

definition post_mcp :: "sdk \<Rightarrow> server_state \<Rightarrow> http_request \<Rightarrow> http_response \<times> server_state" where
  "post_mcp K s req =
     (let sessionId = mcp_session_id req;
          failure = ''{\"error\":\"Internal server error\"}''
      in if given sessionId \<and> has_session s sessionId then
           (case get_session s sessionId of
              None \<Rightarrow> (Response 500 failure, s)
            | Some t \<Rightarrow> handle_with K failure t s req)
         else if \<not> given sessionId \<and> isInitializeRequest K (body req) then
           (let t = constructed s;
                s' = s\<lparr>constructed := Suc (constructed s)\<rparr>
            in if \<not> connect K t then (Response 500 failure, s')
               else handle_with K failure t s' req)
         else (Response 400 ''{\"error\":\"Invalid or missing session ID\"}'', s))"

definition get_mcp :: "sdk \<Rightarrow> server_state \<Rightarrow> http_request \<Rightarrow> http_response \<times> server_state" where
  "get_mcp K s req =
     (let sessionId = mcp_session_id req
      in if \<not> given sessionId \<or> \<not> has_session s sessionId then
           (Response 400 ''Invalid or missing session ID'', s)
         else
           (case get_session s sessionId of
              None \<Rightarrow> (Response 500 ''Error establishing SSE connection'', s)
            | Some t \<Rightarrow> handle_with K ''Error establishing SSE connection'' t s req))"

definition delete_mcp :: "sdk \<Rightarrow> server_state \<Rightarrow> http_request \<Rightarrow> http_response \<times> server_state" where
  "delete_mcp K s req =
     (let sessionId = mcp_session_id req
      in if \<not> given sessionId \<or> \<not> has_session s sessionId then
           (Response 400 ''Invalid or missing session ID'', s)
         else
           (case get_session s sessionId of
              None \<Rightarrow> (Response 500 ''Error processing session termination'', s)
            | Some t \<Rightarrow> handle_with K ''Error processing session termination'' t s req))"

definition mcp_route :: "sdk \<Rightarrow> server_state \<Rightarrow> http_request \<Rightarrow> http_response \<times> server_state" where
  "mcp_route K s req =
     (case http_method req of
        POST \<Rightarrow> post_mcp K s req
      | GET \<Rightarrow> get_mcp K s req
      | DELETE \<Rightarrow> delete_mcp K s req)"

text \<open>
  The server starts with an empty map and serves requests one after another, each
  with whatever the SDK does at that moment.
\<close>

definition initial_state :: server_state where
  "initial_state = \<lparr>transports = [], sessionId_of = (\<lambda>t. None), constructed = 0\<rparr>"

fun serve :: "server_state \<Rightarrow> (sdk \<times> http_request) list \<Rightarrow> server_state" where
  "serve s [] = s"
| "serve s ((K, req) # rest) = serve (snd (mcp_route K s req)) rest"

text \<open>
  A request carries an absent or unknown session identifier when it has no
  \<^verbatim>\<open>mcp-session-id\<close> header or the header's value is not a key of the map.
\<close>

definition unknown_session :: "server_state \<Rightarrow> string option \<Rightarrow> bool" where
  "unknown_session s h =
     (case h of None \<Rightarrow> True | Some sid \<Rightarrow> \<not> map_has (transports s) sid)"

definition unique_sessions :: "server_state \<Rightarrow> bool" where
  "unique_sessions s = distinct (map fst (transports s))"

text \<open>
  An SDK for examples: a body is an initialization message when its \<^verbatim>\<open>method\<close> is
  \<^verbatim>\<open>initialize\<close>; handling one initializes the session \<^verbatim>\<open>session-1\<close>; handling a
  DELETE closes the session of the request.
\<close>

definition example_isInitializeRequest :: "json \<Rightarrow> bool" where
  "example_isInitializeRequest b = (member b ''method'' = Some (JStr ''initialize''))"

definition example_handleRequest :: "transport \<Rightarrow> http_request \<Rightarrow> sdk_event list \<times> sdk_outcome" where
  "example_handleRequest t req =
     (if http_method req = POST \<and> example_isInitializeRequest (body req) then
        ([SessionInitialized ''session-1''], Responded 200)
      else if http_method req = DELETE then
        (case mcp_session_id req of
           None \<Rightarrow> ([], Responded 400)
         | Some sid \<Rightarrow> ([SessionClosed sid, Closed], Responded 200))
      else ([], Responded 200))"

definition example_connect :: "transport \<Rightarrow> bool" where
  "example_connect t = True"

definition example_sdk :: sdk where
  "example_sdk =
     \<lparr>isInitializeRequest = example_isInitializeRequest,
      connect = example_connect,
      handleRequest = example_handleRequest\<rparr>"

definition initialize_request :: http_request where
  "initialize_request =
     \<lparr>http_method = POST, mcp_session_id = None,
      body = JObj [(''jsonrpc'', JStr ''2.0''), (''id'', JNum 1), (''method'', JStr ''initialize'')]\<rparr>"

definition stray_request :: "http_method \<Rightarrow> http_request" where
  "stray_request m =
     \<lparr>http_method = m, mcp_session_id = Some ''no-such-session'',
      body = JObj [(''jsonrpc'', JStr ''2.0''), (''id'', JNum 2), (''method'', JStr ''tools/list'')]\<rparr>"

section \<open>Properties of the upstream client\<close>


lemma and_then_configured:
  "configured svc \<Longrightarrow> and_then (ensureApiKeyConfigured svc) rest = rest"
  by (simp add: and_then_def ensureApiKeyConfigured_def)





lemma fst_callTool:
  "fst (callTool V F svc up now name arguments) =
   caught F (fst (tool_switch V F svc up now name (raw_arguments arguments)))"
  by (simp add: callTool_def split: prod.splits)







lemma axios_get_configured:
  "configured svc \<Longrightarrow> args \<noteq> JNull \<Longrightarrow>
   snd (and_then (ensureApiKeyConfigured svc) (axios_get svc up path args first ps)) =
     [\<lparr>url = BASE_URL @ path, subscription_key = apiKey svc, params = ps\<rparr>]"
  by (simp add: and_then_configured axios_get_def Let_def)

lemma query_params_mem:
  "(k, v) \<in> set (query_params ps) \<longleftrightarrow> v \<noteq> JNull \<and> (k, Some v) \<in> set ps"
  by (induction ps rule: query_params.induct) auto

lemma query_params_keys:
  "k \<in> fst ` set (query_params ps) \<longleftrightarrow> (\<exists>v. v \<noteq> JNull \<and> (k, Some v) \<in> set ps)"
  by (induction ps rule: query_params.induct) (auto simp: image_iff)

lemma sent_query_params:
  assumes "configured svc" "args \<noteq> JNull"
  shows "sent_query m svc up args = query_params (params (hd (snd (invoke m svc up args))))"
  using assms
  by (cases m;
      simp add: sent_query_def getDisruptions_def getTravelAdvice_def getDepartures_def
        getOVFiets_def getStationInfo_def getArrivals_def getPrices_def axios_get_configured)

lemma nullish_or_keeps: "v \<noteq> JNull \<Longrightarrow> nullish_or (Some v) d = v"
  by (cases v) simp_all

text \<open>
  Claim C4, as the code has it. Of a configured client, every declared field of every
  method other than \<^verbatim>\<open>uicCode\<close> of \<^verbatim>\<open>getDepartures\<close>, when the bag provides
  it with a value other than \<^verbatim>\<open>null\<close>, is passed as a query parameter with that
  value (under the method's name for it: \<^verbatim>\<open>station_code\<close> for
  \<^verbatim>\<open>stationCode\<close>, \<^verbatim>\<open>q\<close> for \<^verbatim>\<open>query\<close>); when the bag does not provide
  it, the parameter is left out, except that \<^verbatim>\<open>getStationInfo\<close> sends
  \<^verbatim>\<open>includeNonPlannableStations=false\<close> and \<^verbatim>\<open>limit=10\<close> for these fields
  when they are absent.
\<close>

theorem C4_provided_fields_are_query_parameters:
  assumes "configured svc" and "args \<noteq> JNull"
    and "f \<in> set (declared_fields m)" and "(m, f) \<noteq> (GetDepartures, ''uicCode'')"
  shows "(\<forall>v. member args f = Some v \<and> v \<noteq> JNull \<longrightarrow>
            (query_name m f, v) \<in> set (sent_query m svc up args)) \<and>
         (member args f = None \<longrightarrow>
            (case defaulted m f of
               None \<Rightarrow> query_name m f \<notin> fst ` set (sent_query m svc up args)
             | Some d \<Rightarrow> (query_name m f, d) \<in> set (sent_query m svc up args)))"
proof -
  note sent = sent_query_params [OF assms(1,2)]
  note get = axios_get_configured [OF assms(1,2)]
  show ?thesis
  proof (cases m)
    case GetDisruptions
    with assms(3) have "f = ''isActive'' \<or> f = ''type''" by simp
    then show ?thesis
      by (elim disjE)
         (simp_all add: GetDisruptions sent getDisruptions_def get
            query_name_def defaulted_def query_params_mem query_params_keys)
  next
    case GetTravelAdvice
    with assms(3) have "f = ''fromStation'' \<or> f = ''toStation'' \<or> f = ''dateTime'' \<or>
        f = ''searchForArrival''" by simp
    then show ?thesis
      by (elim disjE)
         (simp_all add: GetTravelAdvice sent getTravelAdvice_def get
            query_name_def defaulted_def query_params_mem query_params_keys)
  next
    case GetDepartures
    with assms(3,4) have "f = ''station'' \<or> f = ''dateTime'' \<or> f = ''maxJourneys'' \<or>
        f = ''lang''" by auto
    then show ?thesis
      by (elim disjE)
         (simp_all add: GetDepartures sent getDepartures_def get
            query_name_def defaulted_def query_params_mem query_params_keys)
  next
    case GetOVFiets
    with assms(3) have "f = ''stationCode''" by simp
    then show ?thesis
      by (simp_all add: GetOVFiets sent getOVFiets_def get
            query_name_def defaulted_def query_params_mem query_params_keys)
  next
    case GetStationInfo
    with assms(3) have "f = ''query'' \<or> f = ''includeNonPlannableStations'' \<or> f = ''limit''"
      by simp
    then show ?thesis
      by (elim disjE)
         (simp_all add: GetStationInfo sent getStationInfo_def get
            query_name_def defaulted_def query_params_mem query_params_keys nullish_or_keeps)
  next
    case GetArrivals
    with assms(3) have "f = ''station'' \<or> f = ''uicCode'' \<or> f = ''dateTime'' \<or>
        f = ''maxJourneys'' \<or> f = ''lang''" by simp
    then show ?thesis
      by (elim disjE)
         (simp_all add: GetArrivals sent getArrivals_def get
            query_name_def defaulted_def query_params_mem query_params_keys)
  next
    case GetPrices
    with assms(3) have "f = ''fromStation'' \<or> f = ''toStation'' \<or> f = ''travelClass'' \<or>
        f = ''travelType'' \<or> f = ''isJointJourney'' \<or> f = ''adults'' \<or> f = ''children'' \<or>
        f = ''routeId'' \<or> f = ''plannedDepartureTime'' \<or> f = ''plannedArrivalTime''" by simp
    then show ?thesis
      by (elim disjE)
         (simp_all add: GetPrices sent getPrices_def get
            query_name_def defaulted_def query_params_mem query_params_keys)
  qed
qed

theorem C4_provided_fields_witness:
  "(''station_code'', JStr ''ASD'') \<in>
     set (sent_query GetOVFiets example_service example_upstream
            (JObj [(''stationCode'', JStr ''ASD'')])) \<and>
   ''lang'' \<notin> fst ` set (sent_query GetArrivals example_service example_upstream
       (JObj [(''uicCode'', JStr ''8400058'')]))"
proof -
  have c: "configured example_service"
    by (simp add: configured_def example_service_def)
  have n: "JObj [(''stationCode'', JStr ''ASD'')] \<noteq> JNull"
    "JObj [(''uicCode'', JStr ''8400058'')] \<noteq> JNull" by simp_all
  have 1: "(''station_code'', JStr ''ASD'') \<in>
     set (sent_query GetOVFiets example_service example_upstream
            (JObj [(''stationCode'', JStr ''ASD'')]))"
    using C4_provided_fields_are_query_parameters
      [OF c n(1), of "''stationCode''" GetOVFiets example_upstream]
    by (simp add: query_name_def)
  have 2: "''lang'' \<notin> fst ` set (sent_query GetArrivals example_service example_upstream
       (JObj [(''uicCode'', JStr ''8400058'')]))"
    using C4_provided_fields_are_query_parameters
      [OF c n(2), of "''lang''" GetArrivals example_upstream]
    by (simp add: query_name_def defaulted_def)
  from 1 2 show ?thesis by simp
qed

text \<open>
  The claim as stated fails twice. \<^verbatim>\<open>getDepartures\<close> is given a \<^verbatim>\<open>uicCode\<close>
  and sends no query parameter at all. \<^verbatim>\<open>getStationInfo\<close> is given no
  \<^verbatim>\<open>limit\<close> and no \<^verbatim>\<open>includeNonPlannableStations\<close> and sends both.
\<close>

theorem C4_counterexample:
  "member (JObj [(''uicCode'', JStr ''8400058'')]) ''uicCode'' = Some (JStr ''8400058'') \<and>
   sent_query GetDepartures example_service example_upstream
     (JObj [(''uicCode'', JStr ''8400058'')]) = [] \<and>
   member (JObj [(''query'', JStr ''Utrecht'')]) ''limit'' = None \<and>
   sent_query GetStationInfo example_service example_upstream
     (JObj [(''query'', JStr ''Utrecht'')]) =
     [(''q'', JStr ''Utrecht''), (''includeNonPlannableStations'', JBool False),
      (''limit'', JNum 10)]"
  by (simp add: sent_query_def getDepartures_def getStationInfo_def axios_get_def and_then_def
      ensureApiKeyConfigured_def configured_def example_service_def Let_def)

section \<open>Properties of the clock and the dispatcher\<close>

lemma of_char_digit_char: "d < 10 \<Longrightarrow> (of_char (digit_char d) :: nat) = 48 + d"
  by (simp add: digit_char_def)

lemma is_digit_digit_char: "d < 10 \<Longrightarrow> is_digit (digit_char d)"
  by (simp add: is_digit_def of_char_digit_char)

lemma shape_append: "shape (xs @ ys) = shape xs @ shape ys"
  by (simp add: shape_def)

lemma shape_decimal: "shape (decimal n) = replicate (length (decimal n)) (CHR ''0'')"
proof (induction n rule: decimal.induct)
  case (1 n)
  show ?case
  proof (cases "n < 10")
    case True
    then show ?thesis
      by (subst (1 2) decimal.simps) (simp add: shape_def is_digit_digit_char)
  next
    case False
    have d: "is_digit (digit_char (n mod 10))" by (simp add: is_digit_digit_char)
    from False 1 d show ?thesis
      by (subst (1 2) decimal.simps)
         (simp add: shape_append, simp add: shape_def replicate_append_same)
  qed
qed

lemma length_decimal: "0 < w \<Longrightarrow> n < 10 ^ w \<Longrightarrow> length (decimal n) \<le> w"
proof (induction n arbitrary: w rule: decimal.induct)
  case (1 n)
  note IH = "1.IH" and wpos = "1.prems"(1) and bound = "1.prems"(2)
  show ?case
  proof (cases "n < 10")
    case True
    with wpos show ?thesis by (subst decimal.simps) simp
  next
    case False
    have "w \<noteq> 1" using False bound by auto
    with wpos obtain w' where w': "w = Suc w'" "0 < w'" by (cases w) auto
    with bound have "n div 10 < 10 ^ w'" by (simp add: less_mult_imp_div_less mult.commute)
    with IH [OF False w'(2)] have "length (decimal (n div 10)) \<le> w'" by simp
    with False w' show ?thesis by (subst decimal.simps) simp
  qed
qed

lemma shape_pad_start:
  assumes "0 < w" "n < 10 ^ w"
  shows "shape (pad_start w (decimal n)) = replicate w (CHR ''0'')"
proof -
  have "length (decimal n) \<le> w" by (rule length_decimal [OF assms])
  moreover have "shape (replicate k (CHR ''0'')) = replicate k (CHR ''0'')" for k
    by (simp add: shape_def is_digit_def)
  ultimately show ?thesis
    by (simp add: pad_start_def shape_append shape_decimal flip: replicate_add)
qed

lemma replicate_2_3_4:
  "replicate 2 x = [x, x]" "replicate 3 x = [x, x, x]" "replicate 4 x = [x, x, x, x]"
  by (simp_all add: eval_nat_numeral)

lemma shape_pad2: "n < 100 \<Longrightarrow> shape (pad_start 2 (decimal n)) = ''00''"
  using shape_pad_start [of 2 n] by (simp add: replicate_2_3_4)

lemma shape_pad3: "n < 1000 \<Longrightarrow> shape (pad_start 3 (decimal n)) = ''000''"
  using shape_pad_start [of 3 n] by (simp add: replicate_2_3_4)

lemma shape_pad4: "n < 10000 \<Longrightarrow> shape (pad_start 4 (decimal n)) = ''0000''"
  using shape_pad_start [of 4 n] by (simp add: replicate_2_3_4)

lemma shape_toISOString:
  assumes "valid_date d"
  shows "shape (toISOString d) = ''0000-00-00T00:00:00.000Z''"
proof -
  from assms have yr: "0 \<le> year d" "year d \<le> 9999" by (auto simp: valid_date_def)
  then have y: "shape (iso_year (year d)) = ''0000''"
    by (simp add: iso_year_def shape_pad4)
  from assms have f: "shape (pad_start 2 (decimal (month d))) = ''00''"
    "shape (pad_start 2 (decimal (day d))) = ''00''"
    "shape (pad_start 2 (decimal (hours d))) = ''00''"
    "shape (pad_start 2 (decimal (minutes d))) = ''00''"
    "shape (pad_start 2 (decimal (seconds d))) = ''00''"
    "shape (pad_start 3 (decimal (milliseconds d))) = ''000''"
    by (simp_all add: valid_date_def shape_pad2 shape_pad3)
  have sep: "shape ''-'' = ''-''" "shape ''T'' = ''T''" "shape '':'' = '':''"
    "shape ''.'' = ''.''" "shape ''Z'' = ''Z''"
    by (simp_all add: shape_def is_digit_def)
  show ?thesis
    unfolding toISOString_def shape_append y f sep by simp
qed

lemma toISOString_example_now: "toISOString example_now = ''2026-11-02T06:22:05.007Z''"
  by code_simp

lemma valid_example_now: "valid_date example_now"
  by (simp add: valid_date_def example_now_def)

lemma tool_switch_current_time:
  "tool_switch V F svc up now ''get_current_time_in_rfc3339'' rawArgs =
     (formatSuccess F (JObj [(''datetime'', JStr (toISOString now)),
                             (''timezone'', JStr ''Europe/Amsterdam'')]), [])"
  by (simp add: tool_switch_def)

text \<open>
  Claim C1. Whatever the tool name and the argument bag, the handler returns an envelope
  and no exception leaves it: an error thrown inside the \<^verbatim>\<open>try\<close> block (an unknown
  tool, a rejected bag, a failure of the client or of the network, a failure of the
  success formatter) is handed to the error formatter, whose result is the handler's.
  The error formatter is a parameter here; that it returns an envelope for every error
  is its own contract (claim C6).
\<close>

theorem C1_dispatcher_never_throws:
  assumes "\<forall>e. \<exists>env. formatError F e = Inr env"
  shows "(\<exists>env. fst (callTool V F svc up now name arguments) = Inr env) \<and>
         (\<forall>e. fst (tool_switch V F svc up now name (raw_arguments arguments)) = Inl e \<longrightarrow>
              fst (callTool V F svc up now name arguments) = formatError F e)"
  using assms by (auto simp: fst_callTool caught_def split: sum.splits)

lemma formatError_spec_returns: "\<forall>e. \<exists>env. formatError spec_formatter e = Inr env"
proof
  fix e
  show "\<exists>env. formatError spec_formatter e = Inr env"
    by (cases e) (simp_all add: spec_formatter_def)
qed

theorem C1_dispatcher_never_throws_witness:
  "fst (callTool spec_validators spec_formatter example_service example_upstream example_now
          ''no_such_tool'' None) =
     Inr (ErrorEnvelope MethodNotFound ''Unknown tool: no_such_tool'')"
proof -
  have "fst (tool_switch spec_validators spec_formatter example_service example_upstream
          example_now ''no_such_tool'' (raw_arguments None)) =
        Inl (McpError MethodNotFound ''Unknown tool: no_such_tool'')"
    by (simp add: tool_switch_def createMcpError_def)
  with C1_dispatcher_never_throws [OF formatError_spec_returns, of spec_validators
      example_service example_upstream example_now "''no_such_tool''" None]
  have "fst (callTool spec_validators spec_formatter example_service example_upstream
          example_now ''no_such_tool'' None) =
        formatError spec_formatter (McpError MethodNotFound ''Unknown tool: no_such_tool'')"
    by blast
  then show ?thesis by (simp add: spec_formatter_def)
qed

text \<open>
  Claim C9. A call of \<^verbatim>\<open>get_current_time_in_rfc3339\<close> with an empty bag issues no
  GET, and its outcome is the success formatter's envelope of the payload
  \<^verbatim>\<open>{datetime: now.toISOString(), timezone: "Europe/Amsterdam"}\<close>; for a date of the
  years 0 to 9999 the datetime has the shape \<^verbatim>\<open>YYYY-MM-DDTHH:mm:ss.sssZ\<close>.
\<close>

theorem C9_current_time:
  assumes "valid_date now"
  shows "callTool V F svc up now ''get_current_time_in_rfc3339'' (Some (JObj [])) =
           (caught F (formatSuccess F (JObj [(''datetime'', JStr (toISOString now)),
                                             (''timezone'', JStr ''Europe/Amsterdam'')])), []) \<and>
         shape (toISOString now) = ''0000-00-00T00:00:00.000Z''"
  using shape_toISOString [OF assms]
  by (simp add: callTool_def tool_switch_current_time)

theorem C9_current_time_witness:
  "callTool spec_validators spec_formatter unconfigured_service example_upstream example_now
     ''get_current_time_in_rfc3339'' (Some (JObj [])) =
     (Inr (SuccessEnvelope [TextContent (JSON_stringify (js_of
        (JObj [(''datetime'', JStr ''2026-11-02T06:22:05.007Z''),
               (''timezone'', JStr ''Europe/Amsterdam'')])))]), []) \<and>
   shape ''2026-11-02T06:22:05.007Z'' = ''0000-00-00T00:00:00.000Z''"
  using C9_current_time [OF valid_example_now, of spec_validators spec_formatter
      unconfigured_service example_upstream]
  by (simp add: toISOString_example_now caught_def spec_formatter_def formatSuccess_spec_def)

text \<open>
  Claim C10. The case of \<^verbatim>\<open>get_current_time_in_rfc3339\<close> never reads the argument
  bag: whatever the arguments (absent, non-empty, wrongly typed), the call issues no GET
  and its outcome is the success formatter's envelope of the payload
  \<^verbatim>\<open>{datetime: now.toISOString(), timezone: "Europe/Amsterdam"}\<close>, the outcome of the
  call with the empty bag; when the success formatter returns an envelope for that
  payload, the call succeeds with it.
\<close>

theorem C10_current_time_ignores_arguments:
  "callTool V F svc up now ''get_current_time_in_rfc3339'' arguments =
     (caught F (formatSuccess F (JObj [(''datetime'', JStr (toISOString now)),
                                       (''timezone'', JStr ''Europe/Amsterdam'')])), []) \<and>
   callTool V F svc up now ''get_current_time_in_rfc3339'' arguments =
     callTool V F svc up now ''get_current_time_in_rfc3339'' (Some (JObj [])) \<and>
   (\<forall>env. formatSuccess F (JObj [(''datetime'', JStr (toISOString now)),
                                 (''timezone'', JStr ''Europe/Amsterdam'')]) = Inr env \<longrightarrow>
      callTool V F svc up now ''get_current_time_in_rfc3339'' arguments = (Inr env, []))"
  by (simp add: callTool_def tool_switch_current_time caught_def)

theorem C10_current_time_ignores_arguments_witness:
  "callTool spec_validators spec_formatter unconfigured_service example_upstream example_now
     ''get_current_time_in_rfc3339''
     (Some (JObj [(''datetime'', JNum 5), (''station'', JArr [JBool True])])) =
     (Inr (SuccessEnvelope [TextContent (JSON_stringify (js_of
        (JObj [(''datetime'', JStr ''2026-11-02T06:22:05.007Z''),
               (''timezone'', JStr ''Europe/Amsterdam'')])))]), [])"
proof -
  have "formatSuccess spec_formatter
      (JObj [(''datetime'', JStr (toISOString example_now)),
             (''timezone'', JStr ''Europe/Amsterdam'')]) =
      Inr (SuccessEnvelope [TextContent (JSON_stringify (js_of
        (JObj [(''datetime'', JStr ''2026-11-02T06:22:05.007Z''),
               (''timezone'', JStr ''Europe/Amsterdam'')])))])"
    by (simp add: spec_formatter_def formatSuccess_spec_def toISOString_example_now)
  with C10_current_time_ignores_arguments [of spec_validators spec_formatter
      unconfigured_service example_upstream example_now
      "Some (JObj [(''datetime'', JNum 5), (''station'', JArr [JBool True])])"]
  show ?thesis by blast
qed

section \<open>Properties of the session map\<close>

lemma keys_map_set: "fst ` set (map_set m k v) = insert k (fst ` set m)"
  by (induction m k v rule: map_set.induct) auto

lemma distinct_map_set: "distinct (map fst m) \<Longrightarrow> distinct (map fst (map_set m k v))"
  by (induction m k v rule: map_set.induct) (auto simp: keys_map_set)

lemma set_map_delete: "set (map_delete m k) \<subseteq> set m"
  by (induction m k rule: map_delete.induct) auto

lemma distinct_map_delete: "distinct (map fst m) \<Longrightarrow> distinct (map fst (map_delete m k))"
proof (induction m k rule: map_delete.induct)
  case (1 k)
  then show ?case by simp
next
  case (2 k' v' m k)
  have "fst ` set (map_delete m k) \<subseteq> fst ` set m"
    using set_map_delete [of m k] by (rule image_mono)
  with 2 show ?case by auto
qed

lemma unique_callback: "unique_sessions s \<Longrightarrow> unique_sessions (callback t s e)"
  by (cases e)
     (auto simp: unique_sessions_def distinct_map_set distinct_map_delete split: option.splits)

lemma constructed_callback: "constructed (callback t s e) = constructed s"
  by (cases e) (auto split: option.splits)

lemma unique_foldl: "unique_sessions s \<Longrightarrow> unique_sessions (foldl (callback t) s es)"
  by (induction es arbitrary: s) (auto simp: unique_callback)

lemma constructed_foldl: "constructed (foldl (callback t) s es) = constructed s"
  by (induction es arbitrary: s) (auto simp: constructed_callback)

lemma unique_handle_with:
  "unique_sessions s \<Longrightarrow> unique_sessions (snd (handle_with K failure t s req))"
  by (auto simp: handle_with_def unique_foldl split: prod.splits)

lemma constructed_handle_with:
  "constructed (snd (handle_with K failure t s req)) = constructed s"
  by (auto simp: handle_with_def constructed_foldl split: prod.splits)

lemma unique_constructed_update:
  "unique_sessions (s\<lparr>constructed := n\<rparr>) = unique_sessions s"
  by (simp add: unique_sessions_def)

lemma unique_mcp_route:
  "unique_sessions s \<Longrightarrow> unique_sessions (snd (mcp_route K s req))"
  by (auto simp: mcp_route_def post_mcp_def get_mcp_def delete_mcp_def Let_def
      unique_handle_with unique_constructed_update split: http_method.splits option.splits)

lemma unique_serve: "unique_sessions s \<Longrightarrow> unique_sessions (serve s steps)"
  by (induction s steps rule: serve.induct) (auto simp: unique_mcp_route)

lemma unique_initial: "unique_sessions initial_state"
  by (simp add: unique_sessions_def initial_state_def)

lemma unknown_not_has:
  "unknown_session s h \<Longrightarrow> \<not> (given h \<and> has_session s h)"
  by (auto simp: unknown_session_def has_session_def split: option.splits)

lemma rejected:
  assumes "unknown_session s (mcp_session_id req)"
    and "http_method req = POST \<longrightarrow> \<not> isInitializeRequest K (body req)"
  shows "\<exists>text. mcp_route K s req = (Response 400 text, s)"
  using unknown_not_has [OF assms(1)] assms(2)
  by (cases "http_method req")
     (auto simp: mcp_route_def post_mcp_def get_mcp_def delete_mcp_def Let_def)

lemma creation_only_by_initialization:
  "constructed (snd (mcp_route K s req)) \<noteq> constructed s \<longleftrightarrow>
   http_method req = POST \<and> \<not> given (mcp_session_id req) \<and> isInitializeRequest K (body req)"
  by (cases "http_method req")
     (auto simp: mcp_route_def post_mcp_def get_mcp_def delete_mcp_def Let_def
        constructed_handle_with split: option.splits if_splits)

text \<open>
  Claim C2. A request on the \<^verbatim>\<open>/mcp\<close> route whose session identifier is absent or
  not in the map, being a GET, a DELETE, or a POST whose body is not an initialization
  message, is answered with status 400 and leaves the server's state, the session map
  included, as it was. A transport object is constructed by a request exactly when the
  request is a POST without a session identifier whose body is an initialization
  message. In every state the server reaches from its start, an identifier has at most
  one transport in the map.
\<close>

theorem C2_sessions:
  "(unknown_session s (mcp_session_id req) \<and>
      (http_method req = POST \<longrightarrow> \<not> isInitializeRequest K (body req)) \<longrightarrow>
      (\<exists>text. mcp_route K s req = (Response 400 text, s))) \<and>
   (constructed (snd (mcp_route K s req)) \<noteq> constructed s \<longleftrightarrow>
      http_method req = POST \<and> \<not> given (mcp_session_id req) \<and>
      isInitializeRequest K (body req)) \<and>
   (\<forall>sid t t'. (sid, t) \<in> set (transports (serve initial_state steps)) \<and>
                (sid, t') \<in> set (transports (serve initial_state steps)) \<longrightarrow> t = t')"
proof (intro conjI impI allI)
  assume "unknown_session s (mcp_session_id req) \<and>
      (http_method req = POST \<longrightarrow> \<not> isInitializeRequest K (body req))"
  then show "\<exists>text. mcp_route K s req = (Response 400 text, s)"
    using rejected by blast
next
  show "constructed (snd (mcp_route K s req)) \<noteq> constructed s \<longleftrightarrow>
      http_method req = POST \<and> \<not> given (mcp_session_id req) \<and>
      isInitializeRequest K (body req)"
    by (rule creation_only_by_initialization)
next
  fix sid t t'
  assume "(sid, t) \<in> set (transports (serve initial_state steps)) \<and>
          (sid, t') \<in> set (transports (serve initial_state steps))"
  moreover have "distinct (map fst (transports (serve initial_state steps)))"
    using unique_serve [OF unique_initial] by (simp add: unique_sessions_def)
  ultimately show "t = t'"
    by (meson eq_key_imp_eq_value)
qed

theorem C2_sessions_witness:
  "(\<exists>text. mcp_route example_sdk initial_state (stray_request DELETE) =
      (Response 400 text, initial_state)) \<and>
   constructed (snd (mcp_route example_sdk initial_state initialize_request)) = 1 \<and>
   transports (serve initial_state
      [(example_sdk, initialize_request), (example_sdk, stray_request GET)]) =
     [(''session-1'', 0)]"
proof -
  have u: "unknown_session initial_state (mcp_session_id (stray_request DELETE))"
    by (simp add: unknown_session_def stray_request_def initial_state_def map_has_def)
  have d: "http_method (stray_request DELETE) = POST \<longrightarrow>
      \<not> isInitializeRequest example_sdk (body (stray_request DELETE))"
    by (simp add: stray_request_def)
  from u d C2_sessions [of initial_state "stray_request DELETE" example_sdk "[]"]
  have a: "\<exists>text. mcp_route example_sdk initial_state (stray_request DELETE) =
      (Response 400 text, initial_state)"
    by blast
  have b: "constructed (snd (mcp_route example_sdk initial_state initialize_request)) = 1"
    by (simp add: mcp_route_def post_mcp_def initialize_request_def given_def Let_def
        example_sdk_def example_isInitializeRequest_def example_connect_def
        constructed_handle_with initial_state_def)
  have c: "transports (serve initial_state
      [(example_sdk, initialize_request), (example_sdk, stray_request GET)]) =
     [(''session-1'', 0)]"
    by (simp add: mcp_route_def post_mcp_def get_mcp_def initialize_request_def
        stray_request_def given_def has_session_def map_has_def Let_def example_sdk_def
        example_isInitializeRequest_def example_connect_def example_handleRequest_def
        handle_with_def initial_state_def)
  from a b c show ?thesis by blast
qed

section \<open>Properties of the formatter and the validators as the spec describes them\<close>

text \<open>
  Claim C6. The error formatter returns an error envelope for every thrown value and
  never throws: a protocol-level error keeps its code and message, an upstream HTTP
  error becomes an internal error with the upstream message, and any other value, an
  \<^verbatim>\<open>Error\<close> object or not an object at all, becomes an internal error.
\<close>

theorem C6_formatError_total:
  "(\<exists>code message. formatError_spec e = Inr (ErrorEnvelope code message)) \<and>
   formatError_spec (McpError c m) = Inr (ErrorEnvelope c m) \<and>
   formatError_spec (AxiosError status m) = Inr (ErrorEnvelope InternalError m) \<and>
   (\<exists>message. formatError_spec (JsError m) = Inr (ErrorEnvelope InternalError message)) \<and>
   (\<exists>message. formatError_spec (ThrownValue v) = Inr (ErrorEnvelope InternalError message))"
  by (cases e) simp_all

lemma valid_board:
  "isValidDeparturesArgs_spec a =
     (board_fields_well_typed a \<and> (present a ''station'' \<or> present a ''uicCode''))"
  "isValidArrivalsArgs_spec a =
     (board_fields_well_typed a \<and> (present a ''station'' \<or> present a ''uicCode''))"
  by (auto simp: isValidDeparturesArgs_spec_def isValidArrivalsArgs_spec_def
      board_fields_well_typed_def)

text \<open>
  Claim C7. The validators of \<^verbatim>\<open>get_departures\<close> and \<^verbatim>\<open>get_arrivals\<close> accept
  every bag with well-typed fields in which exactly one of \<^verbatim>\<open>station\<close> and
  \<^verbatim>\<open>uicCode\<close> is present, reject every bag in which neither is present, and accept
  every bag with well-typed fields in which both are present.
\<close>

theorem C7_station_or_uicCode:
  "(board_fields_well_typed a \<and> (present a ''station'' \<noteq> present a ''uicCode'') \<longrightarrow>
      isValidDeparturesArgs_spec a \<and> isValidArrivalsArgs_spec a) \<and>
   (\<not> present a ''station'' \<and> \<not> present a ''uicCode'' \<longrightarrow>
      \<not> isValidDeparturesArgs_spec a \<and> \<not> isValidArrivalsArgs_spec a) \<and>
   (board_fields_well_typed a \<and> present a ''station'' \<and> present a ''uicCode'' \<longrightarrow>
      isValidDeparturesArgs_spec a \<and> isValidArrivalsArgs_spec a)"
  by (auto simp: valid_board)

theorem C7_station_or_uicCode_witness:
  "isValidDeparturesArgs_spec (JObj [(''uicCode'', JStr ''8400058''), (''maxJourneys'', JNum 5)]) \<and>
   \<not> isValidArrivalsArgs_spec (JObj [(''lang'', JStr ''en'')]) \<and>
   isValidArrivalsArgs_spec (JObj [(''station'', JStr ''ASD''), (''uicCode'', JStr ''8400058'')])"
proof -
  have one: "board_fields_well_typed (JObj [(''uicCode'', JStr ''8400058''), (''maxJourneys'', JNum 5)])"
    "present (JObj [(''uicCode'', JStr ''8400058''), (''maxJourneys'', JNum 5)]) ''station'' \<noteq>
     present (JObj [(''uicCode'', JStr ''8400058''), (''maxJourneys'', JNum 5)]) ''uicCode''"
    by (simp_all add: board_fields_well_typed_def present_def optional_string_def
        optional_int_between_def optional_enum_def)
  have none: "\<not> present (JObj [(''lang'', JStr ''en'')]) ''station''"
    "\<not> present (JObj [(''lang'', JStr ''en'')]) ''uicCode''"
    by (simp_all add: present_def)
  have both: "board_fields_well_typed (JObj [(''station'', JStr ''ASD''), (''uicCode'', JStr ''8400058'')])"
    "present (JObj [(''station'', JStr ''ASD''), (''uicCode'', JStr ''8400058'')]) ''station''"
    "present (JObj [(''station'', JStr ''ASD''), (''uicCode'', JStr ''8400058'')]) ''uicCode''"
    by (simp_all add: board_fields_well_typed_def present_def optional_string_def
        optional_int_between_def optional_enum_def)
  from one C7_station_or_uicCode
    [of "JObj [(''uicCode'', JStr ''8400058''), (''maxJourneys'', JNum 5)]"]
  have a: "isValidDeparturesArgs_spec
      (JObj [(''uicCode'', JStr ''8400058''), (''maxJourneys'', JNum 5)])"
    by blast
  from none C7_station_or_uicCode [of "JObj [(''lang'', JStr ''en'')]"]
  have b: "\<not> isValidArrivalsArgs_spec (JObj [(''lang'', JStr ''en'')])"
    by blast
  from both C7_station_or_uicCode
    [of "JObj [(''station'', JStr ''ASD''), (''uicCode'', JStr ''8400058'')]"]
  have c: "isValidArrivalsArgs_spec
      (JObj [(''station'', JStr ''ASD''), (''uicCode'', JStr ''8400058'')])"
    by blast
  from a b c show ?thesis by blast
qed

lemma member_set_entry:
  "map_of (set_entry kvs k v) k' = (if k' = k then Some v else map_of kvs k')"
  by (induction kvs k v rule: set_entry.induct) auto

lemma member_with_field:
  "is_bag a \<Longrightarrow> member (with_field a k v) k' = (if k' = k then Some v else member a k')"
  by (cases a) (simp_all add: member_set_entry)

lemma is_bag_with_field: "is_bag (with_field a k v) = is_bag a"
  by (cases a) simp_all

lemma prices_adults:
  "isValidPricesArgs_spec (with_field a ''adults'' (JNum n)) =
     (1 \<le> n \<and> isValidPricesArgs_spec (with_field a ''adults'' (JNum 1)))"
  by (cases "is_bag a")
     (auto simp: isValidPricesArgs_spec_def is_bag_with_field member_with_field
        required_string_def optional_enum_def optional_boolean_def optional_int_from_def
        optional_string_def)

lemma prices_children:
  "isValidPricesArgs_spec (with_field a ''children'' (JNum n)) =
     (0 \<le> n \<and> isValidPricesArgs_spec (with_field a ''children'' (JNum 0)))"
  by (cases "is_bag a")
     (auto simp: isValidPricesArgs_spec_def is_bag_with_field member_with_field
        required_string_def optional_enum_def optional_boolean_def optional_int_from_def
        optional_string_def)

lemma prices_minimal:
  "isValidPricesArgs_spec (with_field minimal_prices_bag ''adults'' (JNum 1))"
  "\<not> isValidPricesArgs_spec (with_field minimal_prices_bag ''adults'' (JNum 0))"
  "\<not> isValidPricesArgs_spec (with_field minimal_prices_bag ''children'' (JNum (- 1)))"
  by (simp_all add: isValidPricesArgs_spec_def minimal_prices_bag_def
        required_string_def optional_enum_def optional_boolean_def optional_int_from_def
        optional_string_def)

text \<open>
  Claim C8. The validator of \<^verbatim>\<open>get_prices\<close> rejects every bag with
  \<^verbatim>\<open>adults: 0\<close> and every bag with \<^verbatim>\<open>children: -1\<close>: a bag with
  \<^verbatim>\<open>adults: n\<close> is accepted exactly when \<open>n\<close> is at least 1 and the otherwise
  identical bag with \<^verbatim>\<open>adults: 1\<close> is accepted, and likewise for \<^verbatim>\<open>children\<close>
  and 0. For the bag \<^verbatim>\<open>{fromStation: "ASD", toStation: "UT"}\<close>: with
  \<^verbatim>\<open>adults: 0\<close> it is rejected, with \<^verbatim>\<open>adults: 1\<close> accepted, with
  \<^verbatim>\<open>children: -1\<close> rejected.
\<close>

theorem C8_prices_counts:
  "\<not> isValidPricesArgs_spec (with_field a ''adults'' (JNum 0)) \<and>
   \<not> isValidPricesArgs_spec (with_field a ''children'' (JNum (- 1))) \<and>
   isValidPricesArgs_spec (with_field a ''adults'' (JNum n)) =
     (1 \<le> n \<and> isValidPricesArgs_spec (with_field a ''adults'' (JNum 1))) \<and>
   isValidPricesArgs_spec (with_field a ''children'' (JNum n)) =
     (0 \<le> n \<and> isValidPricesArgs_spec (with_field a ''children'' (JNum 0))) \<and>
   \<not> isValidPricesArgs_spec (with_field minimal_prices_bag ''adults'' (JNum 0)) \<and>
   isValidPricesArgs_spec (with_field minimal_prices_bag ''adults'' (JNum 1)) \<and>
   \<not> isValidPricesArgs_spec (with_field minimal_prices_bag ''children'' (JNum (- 1)))"
proof -
  have "\<not> isValidPricesArgs_spec (with_field a ''adults'' (JNum 0))"
    by (subst prices_adults) simp
  moreover have "\<not> isValidPricesArgs_spec (with_field a ''children'' (JNum (- 1)))"
    by (subst prices_children) simp
  ultimately show ?thesis
    using prices_adults [of a n] prices_children [of a n] prices_minimal by blast
qed

section \<open>Doubles and their decimal text\<close>

lemma round_half_even_of_int: "round_half_even (of_int m) = m"
  by (simp add: round_half_even_def)

lemma double_multiple:
  assumes "is_double r" "0 < r"
  shows "\<exists>m. r = of_int m * 2 powi ulp_exponent r" and "r < overflow_threshold"
proof -
  let ?q = "r / 2 powi ulp_exponent r"
  from assms have q: "of_int \<lfloor>?q\<rfloor> = ?q" and lim: "r < overflow_threshold"
    by (simp_all add: is_double_def Let_def)
  have "r = ?q * 2 powi ulp_exponent r" by simp
  then have "r = of_int \<lfloor>?q\<rfloor> * 2 powi ulp_exponent r" by (simp only: q)
  then show "\<exists>m. r = of_int m * 2 powi ulp_exponent r" ..
  show "r < overflow_threshold" by (rule lim)
qed

lemma round_magnitude_double:
  assumes "is_double r" "0 < r"
  shows "round_magnitude r = Some r"
proof -
  let ?e = "ulp_exponent r"
  from double_multiple [OF assms] obtain m where m: "r = of_int m * 2 powi ?e"
    and lim: "r < overflow_threshold" by blast
  have "r / 2 powi ?e = of_int m"
    by (subst m) simp
  then have "of_int (round_half_even (r / 2 powi ?e)) * 2 powi ?e = r"
    using m by (simp add: round_half_even_of_int)
  with lim show ?thesis
    by (simp add: round_magnitude_def Let_def)
qed

lemma pick_rounds: "pick r k = Some c \<Longrightarrow> rounds_to r c"
proof -
  assume p: "pick r k = Some c"
  let ?P = "\<lambda>c. length (decimal (fst c)) = k \<and> rounds_to r c"
  let ?xs = "filter ?P (candidates r k)"
  have all: "\<forall>x \<in> set ?xs. rounds_to r x" by simp
  show ?thesis
  proof (cases ?xs)
    case Nil
    with p show ?thesis by (simp add: pick_def)
  next
    case (Cons a as)
    note outer = Cons
    show ?thesis
    proof (cases as)
      case Nil
      with outer p have "c = a" by (simp add: pick_def)
      moreover have "a \<in> set ?xs" using outer by simp
      ultimately show ?thesis using all by blast
    next
      case (Cons b bs)
      with outer p have "c = closer r a b" by (simp add: pick_def)
      then have "c = a \<or> c = b" by (simp add: closer_def)
      moreover have "a \<in> set ?xs" "b \<in> set ?xs" using outer Cons by simp_all
      ultimately show ?thesis using all by blast
    qed
  qed
qed

lemma shortest_rounds: "shortest r k tries = Some c \<Longrightarrow> rounds_to r c"
  by (induction r k tries rule: shortest.induct) (auto split: option.splits dest: pick_rounds)

lemma exact_rounds:
  assumes "is_double r" "0 < r"
  shows "rounds_to r (exact r)"
proof -
  let ?e = "ulp_exponent r" and ?N = subnormal_digits
  from double_multiple [OF assms] obtain m where m: "r = of_int m * 2 powi ?e" by blast
  have e: "0 \<le> ?e + int ?N" by (simp add: ulp_exponent_def)
  define j where "j = nat (?e + int ?N)"
  have "(2::rat) powi ?e * 2 ^ ?N = 2 powi (?e + int ?N)"
    by (simp add: power_int_add)
  also have "\<dots> = 2 ^ j" using e by (simp add: j_def power_int_def)
  finally have two: "(2::rat) powi ?e * 2 ^ ?N = 2 ^ j" .
  have "(10::rat) ^ ?N = 2 ^ ?N * 5 ^ ?N"
    by (simp flip: power_mult_distrib)
  then have "r * 10 ^ ?N = of_int m * (2 powi ?e * 2 ^ ?N) * 5 ^ ?N"
    by (subst m) simp
  also have "\<dots> = of_int (m * 2 ^ j * 5 ^ ?N)"
    by (simp add: two)
  finally have K: "r * 10 ^ ?N = of_int (m * 2 ^ j * 5 ^ ?N)" .
  define K where "K = m * 2 ^ j * 5 ^ ?N"
  have rK: "r * 10 ^ ?N = of_int K" using K by (simp add: K_def)
  have "0 < r * 10 ^ ?N" using assms(2) by simp
  then have Kpos: "0 < K" by (simp add: rK)
  define s where "s = nat \<lfloor>r * 10 ^ ?N\<rfloor>"
  have s: "s = nat K" by (simp add: s_def rK)
  have spos: "0 < s" using Kpos s by simp
  have "(of_nat s :: rat) = of_int K" using Kpos s by simp
  then have "(of_nat s :: rat) = r * 10 ^ ?N" by (simp add: rK)
  then have "of_nat s * 10 powi (- int ?N) = r"
    by (simp add: power_int_minus)
  then have "decimal_value s (int (length (decimal s)) - int ?N) = r"
    by (simp add: decimal_value_def)
  with spos round_magnitude_double [OF assms] show ?thesis
    by (simp add: rounds_to_def exact_def Let_def flip: s_def)
qed

lemma digits_of_rounds:
  assumes "is_double r" "0 < r"
  shows "rounds_to r (digits_of r)"
  using shortest_rounds [of r 1 17] exact_rounds [OF assms]
  by (auto simp: digits_of_def split: option.splits)

lemma log2_floor_small: "n < 2 \<Longrightarrow> log2_floor n = 0"
  by (simp add: log2_floor.simps)
lemma log2_floor_step: "2 \<le> n \<Longrightarrow> log2_floor n = Suc (log2_floor (n div 2))"
  by (subst log2_floor.simps) simp
lemma decimal_small: "n < 10 \<Longrightarrow> decimal n = [digit_char n]"
  by (subst decimal.simps) simp
lemma decimal_step: "10 \<le> n \<Longrightarrow> decimal n = decimal (n div 10) @ [digit_char (n mod 10)]"
  by (subst decimal.simps) simp

lemma log2_floor_bounds: "0 < n \<Longrightarrow> 2 ^ log2_floor n \<le> n \<and> n < 2 * 2 ^ log2_floor n"
proof (induction n rule: log2_floor.induct)
  case (1 n)
  show ?case
  proof (cases "n < 2")
    case True
    with 1 show ?thesis by (simp add: log2_floor_small)
  next
    case False
    then have "0 < n div 2" by simp
    with 1 False have "2 ^ log2_floor (n div 2) \<le> n div 2 \<and> n div 2 < 2 * 2 ^ log2_floor (n div 2)"
      by simp
    with False show ?thesis by (simp add: log2_floor_step) linarith
  qed
qed

lemma bit_length_bound: "n < 2 ^ bit_length n"
  using log2_floor_bounds [of n] by (simp add: bit_length_def)

lemma ilog2_le:
  assumes "0 < r"
  shows "2 powi ilog2 r \<le> r"
proof (cases "1 \<le> r")
  case True
  then have "0 < nat \<lfloor>r\<rfloor>" by simp
  from log2_floor_bounds [OF this] have "2 ^ log2_floor (nat \<lfloor>r\<rfloor>) \<le> nat \<lfloor>r\<rfloor>" by simp
  then have "(of_nat (2 ^ log2_floor (nat \<lfloor>r\<rfloor>)) :: rat) \<le> of_nat (nat \<lfloor>r\<rfloor>)"
    by (simp only: of_nat_le_iff)
  also have "\<dots> \<le> r" using True by simp
  finally show ?thesis using True by (simp add: ilog2_def)
next
  case False
  define b where "b = bit_length (nat \<lceil>1 / r\<rceil> - 1)"
  have "nat \<lceil>1 / r\<rceil> - 1 < 2 ^ b" by (simp add: b_def bit_length_bound)
  then have "nat \<lceil>1 / r\<rceil> \<le> 2 ^ b" by linarith
  then have "(of_nat (nat \<lceil>1 / r\<rceil>) :: rat) \<le> of_nat (2 ^ b)" by (simp only: of_nat_le_iff)
  moreover have "1 / r \<le> of_nat (nat \<lceil>1 / r\<rceil>)"
    using assms by (simp add: le_of_int_ceiling)
  ultimately have "1 / r \<le> of_nat (2 ^ b)" by (rule order_trans [rotated])
  then have "1 / r \<le> 2 ^ b" by simp
  then have "1 / 2 ^ b \<le> r" using assms by (simp add: field_simps)
  moreover have "ilog2 r = - int b" using False by (simp add: ilog2_def b_def)
  ultimately show ?thesis by (simp add: power_int_minus_divide)
qed

lemma is_double_intro:
  assumes "0 < m" "m < 2 ^ 53" "- int subnormal_digits \<le> e" "e \<le> 971"
  shows "is_double (of_int m * 2 powi e)" and "is_double (- (of_int m * 2 powi e))"
proof -
  define r :: rat where "r = of_int m * 2 powi e"
  have rpos: "0 < r" using assms(1) by (simp add: r_def)
  have "r < 2 ^ 53 * 2 powi e"
    using assms(2) unfolding r_def by (intro mult_strict_right_mono) (simp_all flip: of_int_less_iff)
  also have "\<dots> = 2 powi (e + 53)" by (simp add: power_int_add)
  finally have upper: "r < 2 powi (e + 53)" .
  with ilog2_le [OF rpos] have "(2::rat) powi ilog2 r < 2 powi (e + 53)" by simp
  then have "ilog2 r < e + 53"
    using power_int_increasing [of "e + 53" "ilog2 r" "2::rat"] by (cases "ilog2 r < e + 53") simp_all
  then have u: "ulp_exponent r \<le> e" using assms(3) by (simp add: ulp_exponent_def)
  define j where "j = nat (e - ulp_exponent r)"
  have "r / 2 powi ulp_exponent r = of_int m * 2 powi (e - ulp_exponent r)"
    by (simp add: r_def power_int_diff)
  also have "\<dots> = of_int (m * 2 ^ j)" using u by (simp add: j_def power_int_def)
  finally have q: "r / 2 powi ulp_exponent r = of_int (m * 2 ^ j)" .
  have "(2::rat) powi (e + 53) \<le> 2 powi 1024"
    using assms(4) by (intro power_int_increasing) simp_all
  with upper have lim: "r < overflow_threshold" by (simp add: overflow_threshold_def)
  have fl: "of_int \<lfloor>r / 2 powi ulp_exponent r\<rfloor> = r / 2 powi ulp_exponent r"
    by (simp only: q floor_of_int)
  have "is_double r"
    unfolding is_double_def Let_def abs_of_pos [OF rpos] using fl lim by blast
  then show "is_double (of_int m * 2 powi e)" "is_double (- (of_int m * 2 powi e))"
    by (simp_all add: r_def is_double_def)
qed

lemma decimal_not_Nil: "decimal n \<noteq> []"
  by (subst decimal.simps) simp

lemma is_digit_unit_digit: "d < 10 \<Longrightarrow> is_digit_unit (48 + d)"
  by (simp add: is_digit_unit_def)

lemma units_decimal_digits: "list_all is_digit_unit (units (decimal n))"
proof (induction n rule: decimal.induct)
  case (1 n)
  have m: "n mod 10 < 10" by simp
  show ?case
  proof (cases "n < 10")
    case True
    then show ?thesis
      by (subst decimal.simps) (simp add: units_def is_digit_unit_digit of_char_digit_char)
  next
    case False
    with 1 show ?thesis
      by (subst decimal.simps)
        (simp add: units_def is_digit_unit_digit [OF m] of_char_digit_char)
  qed
qed

lemma units_decimal_not_Nil: "units (decimal n) \<noteq> []"
  by (simp add: units_def decimal_not_Nil)

lemma length_units: "length (units s) = length s"
  by (simp add: units_def)

lemma hd_units_decimal: "hd (units (decimal n)) = 48 \<longleftrightarrow> n = 0"
proof (induction n rule: decimal.induct)
  case (1 n)
  show ?case
  proof (cases "n < 10")
    case True
    then show ?thesis
      by (subst decimal.simps) (simp add: units_def of_char_digit_char)
  next
    case False
    then have "n div 10 \<noteq> 0" by auto
    with False 1 show ?thesis
      by (subst decimal.simps) (simp add: units_def decimal_not_Nil hd_append hd_map)
  qed
qed

lemma digits_value_append:
  "digits_value (a @ b) = digits_value a * 10 ^ length b + digits_value b"
proof -
  define f :: "nat \<Rightarrow> nat \<Rightarrow> nat" where "f = (\<lambda>acc c. 10 * acc + (c - 48))"
  have step: "foldl f x b = x * 10 ^ length b + foldl f 0 b" for x
  proof (induction b rule: rev_induct)
    case Nil
    then show ?case by simp
  next
    case (snoc c b)
    have "foldl f x (b @ [c]) = 10 * foldl f x b + (c - 48)" by (simp add: f_def)
    also have "\<dots> = 10 * (x * 10 ^ length b + foldl f 0 b) + (c - 48)" by (simp only: snoc)
    also have "\<dots> = x * 10 ^ length (b @ [c]) + (10 * foldl f 0 b + (c - 48))"
      by (simp add: algebra_simps)
    also have "10 * foldl f 0 b + (c - 48) = foldl f 0 (b @ [c])" by (simp add: f_def)
    finally show ?case .
  qed
  have "digits_value (a @ b) = foldl f (foldl f 0 a) b"
    by (simp add: digits_value_def f_def)
  also have "\<dots> = foldl f 0 a * 10 ^ length b + foldl f 0 b" by (rule step)
  finally show ?thesis by (simp add: digits_value_def f_def)
qed

lemma digits_value_units_decimal: "digits_value (units (decimal n)) = n"
proof (induction n rule: decimal.induct)
  case (1 n)
  show ?case
  proof (cases "n < 10")
    case True
    then show ?thesis
      by (subst decimal.simps) (simp add: digits_value_def units_def of_char_digit_char)
  next
    case False
    with 1 have "digits_value (units (decimal (n div 10))) = n div 10" by simp
    moreover have "units (decimal n) = units (decimal (n div 10)) @ [48 + n mod 10]"
      using False by (subst decimal.simps) (simp add: units_def of_char_digit_char)
    ultimately show ?thesis
      by (simp add: digits_value_append) (simp add: digits_value_def)
  qed
qed

lemma digits_value_zeros: "digits_value (replicate z 48) = 0"
  by (induction z) (simp_all add: digits_value_def)

lemma digit_run:
  assumes "list_all is_digit_unit a" "digit_stop b"
  shows "takeWhile is_digit_unit (a @ b) = a" "dropWhile is_digit_unit (a @ b) = b"
proof -
  have all: "\<forall>c\<in>set a. is_digit_unit c" using assms(1) by (simp add: list_all_iff)
  have stop: "takeWhile is_digit_unit b = []" "dropWhile is_digit_unit b = b"
    using assms(2) by (cases b; simp add: digit_stop_def)+
  show "takeWhile is_digit_unit (a @ b) = a" using all stop by (simp add: takeWhile_append2)
  show "dropWhile is_digit_unit (a @ b) = b" using all stop by (simp add: dropWhile_append2)
qed

lemma parse_int_part_digits:
  assumes "list_all is_digit_unit a" "a \<noteq> []" "hd a \<noteq> 48" "digit_stop b"
  shows "parse_int_part (a @ b) = Some (a, b)"
proof -
  obtain c cs where a: "a = c # cs" using assms(2) by (cases a) auto
  with assms have "c \<noteq> 48" "is_digit_unit c" by simp_all
  moreover have "takeWhile is_digit_unit (c # cs @ b) = a" "dropWhile is_digit_unit (c # cs @ b) = b"
    using digit_run [OF assms(1,4)] a by simp_all
  ultimately show ?thesis by (simp add: parse_int_part_def a)
qed

lemma parse_int_part_zero: "parse_int_part (48 # b) = Some ([48], b)"
  by (simp add: parse_int_part_def)

lemma parse_fraction_digits:
  assumes "list_all is_digit_unit a" "a \<noteq> []" "digit_stop b"
  shows "parse_fraction (46 # a @ b) = Some (a, b)"
  using digit_run [OF assms(1,3)] assms(2) by (simp add: parse_fraction_def)

lemma parse_fraction_none:
  assumes "case b of [] \<Rightarrow> True | c # cs \<Rightarrow> c \<noteq> 46"
  shows "parse_fraction b = Some ([], b)"
  using assms by (cases b) (simp_all add: parse_fraction_def)

lemma parse_exponent_none:
  assumes "case b of [] \<Rightarrow> True | c # cs \<Rightarrow> c \<noteq> 101 \<and> c \<noteq> 69"
  shows "parse_exponent b = Some (0, b)"
  using assms by (cases b) (simp_all add: parse_exponent_def)

lemma number_end_stop: "number_end rest \<Longrightarrow> digit_stop rest"
  by (cases rest) (simp_all add: number_end_def digit_stop_def)

lemma number_end_no_fraction: "number_end rest \<Longrightarrow> parse_fraction rest = Some ([], rest)"
  by (rule parse_fraction_none) (cases rest; simp add: number_end_def)

lemma number_end_no_exponent: "number_end rest \<Longrightarrow> parse_exponent rest = Some (0, rest)"
  by (rule parse_exponent_none) (cases rest; simp add: number_end_def)

lemma parse_exponent_digits_decimal:
  assumes "number_end rest"
  shows "parse_exponent_digits neg (units (decimal x) @ rest) =
         Some ((if neg then - int x else int x), rest)"
  using digit_run [OF units_decimal_digits number_end_stop [OF assms], of x]
  by (simp add: parse_exponent_digits_def units_decimal_not_Nil digits_value_units_decimal)

lemma parse_exponent_printed:
  assumes "number_end rest"
  shows "parse_exponent (units ''e'' @ units (if e < 0 then ''-'' else ''+'') @
           units (decimal (nat \<bar>e\<bar>)) @ rest) = Some (e, rest)"
proof (cases "e < 0")
  case True
  with parse_exponent_digits_decimal [OF assms, of True "nat \<bar>e\<bar>"] show ?thesis
    by (simp add: parse_exponent_def units_def)
next
  case False
  with parse_exponent_digits_decimal [OF assms, of False "nat \<bar>e\<bar>"] show ?thesis
    by (simp add: parse_exponent_def units_def)
qed

lemma units_literals:
  "units ''.'' = [46]" "units ''0.'' = [48, 46]" "units ''e'' = [101]" "units ''-'' = [45]"
  "units ''+'' = [43]" "units ''0'' = [48]"
  by (simp_all add: units_def)

lemma stop_simps:
  "digit_stop (46 # b)" "digit_stop (101 # b)" "digit_stop []"
  by (simp_all add: digit_stop_def is_digit_unit_def)

lemma parse_magnitude_format:
  assumes "0 < s" "number_end rest"
  shows "parse_magnitude (format_digits s n @ rest) = Some (decimal_value s n, rest)"
proof -
  define ds where "ds = units (decimal s)"
  define k where "k = int (length ds)"
  have digits: "list_all is_digit_unit ds" and nonempty: "ds \<noteq> []" and first: "hd ds \<noteq> 48"
    and val: "digits_value ds = s"
    using assms(1)
    by (simp_all add: ds_def units_decimal_digits units_decimal_not_Nil hd_units_decimal
        digits_value_units_decimal)
  have kpos: "0 < k" using nonempty by (simp add: k_def)
  have len: "int (length (decimal s)) = k" by (simp add: k_def ds_def length_units)
  note stop = number_end_stop [OF assms(2)]
  note nofrac = number_end_no_fraction [OF assms(2)]
  note noexp = number_end_no_exponent [OF assms(2)]
  consider (plain) "k \<le> n" "n \<le> 21" | (point) "0 < n" "n < k" "n \<le> 21"
    | (small) "- 6 < n" "n \<le> 0" | (exponential) "21 < n \<or> n \<le> - 6"
    by linarith
  then show ?thesis
  proof cases
    case plain
    define z where "z = nat (n - k)"
    let ?a = "ds @ replicate z 48"
    have fmt: "format_digits s n = ?a"
      using plain by (simp add: format_digits_def Let_def z_def flip: ds_def k_def)
    have "list_all is_digit_unit ?a" using digits by (auto simp: is_digit_unit_def list_all_iff)
    moreover have "?a \<noteq> []" "hd ?a \<noteq> 48" using nonempty first by simp_all
    ultimately have "parse_int_part (?a @ rest) = Some (?a, rest)"
      using stop by (intro parse_int_part_digits)
    moreover have "digits_value ?a = s * 10 ^ z"
      by (simp add: digits_value_append digits_value_zeros val)
    moreover have "(10::rat) powi (n - k) = 10 ^ z"
      using plain by (simp add: z_def power_int_def)
    ultimately show ?thesis
      by (simp add: parse_magnitude_def fmt nofrac noexp decimal_value_def len del: append_assoc)
  next
    case point
    define i where "i = nat n"
    let ?a = "take i ds" and ?b = "drop i ds"
    have i: "0 < i" "i < length ds" using point by (simp_all add: i_def k_def)
    have fmt: "format_digits s n = ?a @ 46 # ?b"
      using point by (simp add: format_digits_def Let_def i_def units_literals flip: ds_def k_def)
    have "list_all is_digit_unit ?a" "list_all is_digit_unit ?b"
      using digits by (auto simp: list_all_iff dest: in_set_takeD in_set_dropD)
    moreover have "?a \<noteq> []" "?b \<noteq> []" "hd ?a \<noteq> 48" using i nonempty first by simp_all
    ultimately have "parse_int_part (?a @ 46 # ?b @ rest) = Some (?a, 46 # ?b @ rest)"
      and "parse_fraction (46 # ?b @ rest) = Some (?b, rest)"
      using stop by (auto intro!: parse_int_part_digits parse_fraction_digits simp: stop_simps)
    moreover have "digits_value (?a @ ?b) = s" by (simp add: val)
    moreover have "- int (length ?b) = n - k" using i point by (simp add: i_def k_def)
    ultimately show ?thesis
      by (simp add: parse_magnitude_def fmt noexp decimal_value_def len)
  next
    case small
    define z where "z = nat (- n)"
    let ?f = "replicate z 48 @ ds"
    have fmt: "format_digits s n = 48 # 46 # ?f"
      using small kpos by (simp add: format_digits_def Let_def z_def units_literals flip: ds_def k_def)
    have "list_all is_digit_unit ?f" using digits by (auto simp: is_digit_unit_def list_all_iff)
    moreover have "?f \<noteq> []" using nonempty by simp
    ultimately have "parse_fraction (46 # ?f @ rest) = Some (?f, rest)"
      using stop by (intro parse_fraction_digits)
    moreover have "digits_value ([48] @ ?f) = s"
    proof -
      have "digits_value (replicate (Suc z) 48 @ ds) = s"
        by (simp only: digits_value_append digits_value_zeros val mult_zero_left add_0)
      then show ?thesis by simp
    qed
    moreover have "- int (length ?f) = n - k" using small by (simp add: z_def k_def)
    ultimately show ?thesis
      by (simp add: parse_magnitude_def fmt parse_int_part_zero noexp decimal_value_def len)
  next
    case exponential
    define e where "e = n - 1"
    define xt where
      "xt = units (if e < 0 then ''-'' else ''+'') @ units (decimal (nat \<bar>e\<bar>)) @ rest"
    have ex: "parse_exponent (101 # xt) = Some (e, rest)"
      using parse_exponent_printed [OF assms(2), of e] by (simp add: xt_def units_literals)
    have conds: "\<not> (k \<le> n \<and> n \<le> 21)" "\<not> (0 < n \<and> n \<le> 21)" "\<not> (- 6 < n \<and> n \<le> 0)"
      using exponential kpos by auto
    have nofrac': "parse_fraction (101 # xt) = Some ([], 101 # xt)"
      by (rule parse_fraction_none) simp
    show ?thesis
    proof (cases "k = 1")
      case True
      have "format_digits s n = ds @ units ''e'' @
          units (if e < 0 then ''-'' else ''+'') @ units (decimal (nat \<bar>e\<bar>))"
        using True conds
        by (auto simp add: format_digits_def Let_def e_def simp flip: ds_def k_def)
      then have fmt: "format_digits s n @ rest = ds @ 101 # xt"
        by (simp add: xt_def units_literals)
      have "parse_int_part (ds @ 101 # xt) = Some (ds, 101 # xt)"
        by (rule parse_int_part_digits [OF digits nonempty first]) (simp add: stop_simps)
      moreover have "e = n - k" using True by (simp add: e_def)
      ultimately show ?thesis
        using ex nofrac' by (simp add: parse_magnitude_def fmt decimal_value_def len val)
    next
      case False
      with nonempty have k: "1 < length ds" by (cases ds) (auto simp: k_def)
      have "format_digits s n = [hd ds] @ units ''.'' @ tl ds @ units ''e'' @
          units (if e < 0 then ''-'' else ''+'') @ units (decimal (nat \<bar>e\<bar>))"
        using False conds
        by (auto simp add: format_digits_def Let_def e_def simp flip: ds_def k_def)
      then have fmt: "format_digits s n @ rest = [hd ds] @ 46 # tl ds @ 101 # xt"
        by (simp add: xt_def units_literals)
      have one: "list_all is_digit_unit [hd ds]" and others: "list_all is_digit_unit (tl ds)"
        using digits nonempty by (cases ds; simp)+
      have tl: "tl ds \<noteq> []" using k by (cases ds) auto
      have "parse_int_part ([hd ds] @ 46 # tl ds @ 101 # xt) = Some ([hd ds], 46 # tl ds @ 101 # xt)"
        using first by (intro parse_int_part_digits [OF one]) (simp_all add: stop_simps)
      moreover have "parse_fraction (46 # tl ds @ 101 # xt) = Some (tl ds, 101 # xt)"
        by (rule parse_fraction_digits [OF others tl]) (simp add: stop_simps)
      moreover have "digits_value ([hd ds] @ tl ds) = s" using nonempty val by simp
      moreover have "e - int (length (tl ds)) = n - k" using k by (simp add: e_def k_def)
      ultimately show ?thesis
        using ex by (simp add: parse_magnitude_def fmt decimal_value_def len)
    qed
  qed
qed

lemma decimal_value_pos: "0 < s \<Longrightarrow> 0 < decimal_value s n"
  by (simp add: decimal_value_def)

lemma to_number_rounds:
  assumes "rounds_to r (s, n)" "0 < r"
  shows "to_number negative (decimal_value s n) = Finite (if negative then - r else r)"
proof -
  from assms(1) have s: "0 < s" and r: "round_magnitude (decimal_value s n) = Some r"
    by (simp_all add: rounds_to_def)
  from decimal_value_pos [OF s, of n] have "\<not> decimal_value s n \<le> 0" by simp
  with r assms(2) show ?thesis by (simp add: to_number_def)
qed

lemma format_digits_start:
  assumes "0 < s"
  shows "\<exists>c cs. format_digits s n = c # cs \<and> is_digit_unit c"
proof -
  obtain c cs where ds: "units (decimal s) = c # cs" and c: "is_digit_unit c"
    using units_decimal_digits [of s] units_decimal_not_Nil [of s]
    by (cases "units (decimal s)") simp_all
  have "0 < n \<Longrightarrow> take (nat n) (c # cs) = c # take (nat n - 1) cs"
    by (cases "nat n") simp_all
  with ds c show ?thesis
    by (auto simp: format_digits_def Let_def units_literals is_digit_unit_def)
qed

lemma is_digit_unit_not_minus: "is_digit_unit c \<Longrightarrow> c \<noteq> 45"
  by (auto simp: is_digit_unit_def)

lemma parse_positive:
  assumes "is_double r" "0 < r" "number_end rest"
  shows "parse_magnitude ((case digits_of r of (s, n) \<Rightarrow> format_digits s n) @ rest) =
           Some (decimal_value (fst (digits_of r)) (snd (digits_of r)), rest)"
    and "to_number negative (decimal_value (fst (digits_of r)) (snd (digits_of r))) =
           Finite (if negative then - r else r)"
proof -
  obtain s n where d: "digits_of r = (s, n)" by (cases "digits_of r")
  from digits_of_rounds [OF assms(1,2)] have r: "rounds_to r (s, n)" by (simp add: d)
  then have s: "0 < s" by (simp add: rounds_to_def)
  show "parse_magnitude ((case digits_of r of (s, n) \<Rightarrow> format_digits s n) @ rest) =
           Some (decimal_value (fst (digits_of r)) (snd (digits_of r)), rest)"
    using parse_magnitude_format [OF s assms(3)] by (simp add: d)
  show "to_number negative (decimal_value (fst (digits_of r)) (snd (digits_of r))) =
           Finite (if negative then - r else r)"
    using to_number_rounds [OF r assms(2)] by (simp add: d)
qed

lemma printed_start:
  assumes "is_double r" "0 < r"
  shows "\<exists>c cs. (case digits_of r of (s, n) \<Rightarrow> format_digits s n) = c # cs \<and> is_digit_unit c"
proof -
  obtain s n where d: "digits_of r = (s, n)" by (cases "digits_of r")
  from digits_of_rounds [OF assms(1,2)] have "rounds_to r (s, n)" by (simp add: d)
  then have "0 < s" by (simp add: rounds_to_def)
  from format_digits_start [OF this] show ?thesis by (simp add: d)
qed

lemma is_double_abs: "is_double q \<Longrightarrow> is_double \<bar>q\<bar>"
  by (simp add: is_double_def)

lemma parse_number_to_string:
  assumes "is_double q" "number_end rest"
  shows "parse_number (number_to_string (Finite q) @ rest) = Some (VNum (Finite q), rest)"
proof -
  consider (zero) "q = 0" | (pos) "0 < q" | (neg) "q < 0" by linarith
  then show ?thesis
  proof cases
    case zero
    have "parse_magnitude (48 # rest) = Some (0, rest)"
      using number_end_no_fraction [OF assms(2)] number_end_no_exponent [OF assms(2)]
      by (simp add: parse_magnitude_def parse_int_part_zero digits_value_def)
    with zero show ?thesis
      by (simp add: parse_number_def number_to_string_def units_literals to_number_def zero_def)
  next
    case pos
    then have a: "\<bar>q\<bar> = q" by simp
    note p = parse_positive(1) [OF assms(1) pos assms(2)]
    have t: "to_number False (decimal_value (fst (digits_of q)) (snd (digits_of q))) = Finite q"
      using parse_positive(2) [OF assms(1) pos assms(2), where negative = False] by simp
    from printed_start [OF assms(1) pos] obtain c cs where
      c: "(case digits_of q of (s, n) \<Rightarrow> format_digits s n) = c # cs" "is_digit_unit c"
      by auto
    have "number_to_string (Finite q) = c # cs"
      using pos c(1) by (simp add: number_to_string_def a)
    moreover have "parse_magnitude (c # cs @ rest) =
        Some (decimal_value (fst (digits_of q)) (snd (digits_of q)), rest)"
      using p c(1) by simp
    ultimately show ?thesis
      using t is_digit_unit_not_minus [OF c(2)] by (simp add: parse_number_def)
  next
    case neg
    then have pos: "0 < \<bar>q\<bar>" by simp
    note p = parse_positive(1) [OF is_double_abs [OF assms(1)] pos assms(2)]
    have t: "to_number True (decimal_value (fst (digits_of \<bar>q\<bar>)) (snd (digits_of \<bar>q\<bar>))) = Finite (- \<bar>q\<bar>)"
      using parse_positive(2) [OF is_double_abs [OF assms(1)] pos assms(2), where negative = True] by simp
    have "number_to_string (Finite q) = 45 # (case digits_of \<bar>q\<bar> of (s, n) \<Rightarrow> format_digits s n)"
      using neg by (simp add: number_to_string_def units_literals)
    then show ?thesis
      using p t neg by (simp add: parse_number_def)
  qed
qed

lemma number_to_string_start:
  assumes "is_double q"
  shows "\<exists>c cs. number_to_string (Finite q) = c # cs \<and> (c = 45 \<or> is_digit_unit c)"
proof -
  consider (zero) "q = 0" | (pos) "0 < q" | (neg) "q < 0" by linarith
  then show ?thesis
  proof cases
    case zero
    then show ?thesis by (simp add: number_to_string_def units_literals is_digit_unit_def)
  next
    case pos
    from printed_start [OF assms pos] obtain c cs where
      "(case digits_of q of (s, n) \<Rightarrow> format_digits s n) = c # cs" "is_digit_unit c" by auto
    with pos show ?thesis by (simp add: number_to_string_def)
  next
    case neg
    then show ?thesis by (simp add: number_to_string_def units_literals)
  qed
qed

section \<open>Serializing and parsing JSON text\<close>

lemma consumed_simps [simp]:
  "consumed x None = None" "consumed x (Some (xs, rest)) = Some (x # xs, rest)"
  by (simp_all add: consumed_def)

lemma hex_value_hex_digit: "d < 16 \<Longrightarrow> hex_value (hex_digit d) = Some d"
  by (auto simp: hex_value_def hex_digit_def)

lemma hex4_digits:
  assumes "c < 65536"
  shows "hex4 (hex_digit (c div 4096)) (hex_digit (c div 256 mod 16))
           (hex_digit (c div 16 mod 16)) (hex_digit (c mod 16)) = Some c"
proof -
  have a: "c div 4096 < 16" using assms by simp
  have b: "c div 256 mod 16 < 16" "c div 16 mod 16 < 16" "c mod 16 < 16" by simp_all
  have d: "c div 256 = c div 16 div 16" "c div 4096 = c div 16 div 16 div 16"
    by (simp_all add: div_mult2_eq [symmetric])
  have "((c div 4096 * 16 + c div 256 mod 16) * 16 + c div 16 mod 16) * 16 + c mod 16 = c"
    by (simp only: d div_mult_mod_eq)
  then show ?thesis
    by (simp add: hex4_def hex_value_hex_digit [OF a] hex_value_hex_digit [OF b(1)]
        hex_value_hex_digit [OF b(2)] hex_value_hex_digit [OF b(3)])
qed

lemma parse_chars_unicode_escape:
  assumes "c < 65536"
  shows "parse_chars (unicode_escape c @ tail) = consumed c (parse_chars tail)"
  using hex4_digits [OF assms] by (simp add: unicode_escape_def units_def)

lemma parse_chars_escape_unit:
  assumes "c < 65536"
  shows "parse_chars (escape_unit c @ tail) = consumed c (parse_chars tail)"
proof (cases "c = 0x22 \<or> c = 0x5C \<or> c = 0x08 \<or> c = 0x0C \<or> c = 0x0A \<or> c = 0x0D \<or> c = 0x09")
  case True
  then show ?thesis
    by (elim disjE) (simp_all add: escape_unit_def units_def unescape_def)
next
  case False
  note short = False
  show ?thesis
  proof (cases "c < 0x20 \<or> is_lead c \<or> is_trail c")
    case True
    with short have "escape_unit c = unicode_escape c" by (simp add: escape_unit_def)
    then show ?thesis by (simp add: parse_chars_unicode_escape [OF assms])
  next
    case False
    with short have "escape_unit c = [c]" by (simp add: escape_unit_def)
    with short False show ?thesis by simp
  qed
qed

lemma parse_chars_pair:
  assumes "is_lead c" "is_trail d"
  shows "parse_chars (c # d # tail) = consumed c (consumed d (parse_chars tail))"
  using assms by (simp add: is_lead_def is_trail_def)

lemma parse_chars_quoted:
  "list_all (\<lambda>c. c < 65536) s \<Longrightarrow> parse_chars (quote_units s @ 0x22 # rest) = Some (s, rest)"
proof (induction s rule: quote_units.induct)
  case 1
  then show ?case by simp
next
  case (2 c)
  then show ?case by (simp add: parse_chars_escape_unit)
next
  case (3 c d cs)
  show ?case
  proof (cases "is_lead c \<and> is_trail d")
    case True
    then have "quote_units (c # d # cs) = c # d # quote_units cs" by simp
    moreover have "parse_chars (quote_units cs @ 34 # rest) = Some (cs, rest)"
      using "3.prems" by (intro "3.IH"(1) [OF True]) simp
    ultimately show ?thesis
      using True by (simp add: parse_chars_pair del: parse_chars.simps quote_units.simps)
  next
    case False
    then have "quote_units (c # d # cs) = escape_unit c @ quote_units (d # cs)" by auto
    moreover have "parse_chars (quote_units (d # cs) @ 34 # rest) = Some (d # cs, rest)"
      using "3.prems" by (intro "3.IH"(2) [OF False]) simp
    moreover have "c < 65536" using "3.prems" by simp
    ultimately show ?thesis
      by (simp add: parse_chars_escape_unit del: parse_chars.simps quote_units.simps)
  qed
qed

lemma skip_ws_append: "ws_only w \<Longrightarrow> skip_ws (w @ s) = skip_ws s"
  by (induction w) (simp_all add: ws_only_def skip_ws_def)

lemma skip_ws_Cons: "\<not> is_ws c \<Longrightarrow> skip_ws (c # s) = c # s"
  by (simp add: skip_ws_def)

lemma ws_only_simps [simp]:
  "ws_only []" "ws_only gap" "ws_only newline" "ws_only (a @ b) = (ws_only a \<and> ws_only b)"
  "ws_only (32 # a) = ws_only a"
  by (simp_all add: ws_only_def gap_def newline_def is_ws_def units_def)

lemma text_literals:
  "units ''null'' = [110, 117, 108, 108]" "units ''true'' = [116, 114, 117, 101]"
  "units ''false'' = [102, 97, 108, 115, 101]" "units ''[]'' = [91, 93]" "units ''{}'' = [123, 125]"
  "units ''['' = [91]" "units '']'' = [93]" "units ''{'' = [123]" "units ''}'' = [125]"
  "units '','' = [44]" "units '': '' = [58, 32]" "units [CHR 0x22] = [34]"
  by (simp_all add: units_def)

lemma parse_value_ws: "ws_only w \<Longrightarrow> parse_value n (w @ s) = parse_value n s"
  by (cases n) (simp_all add: skip_ws_append)

lemma parse_elements_ws: "ws_only w \<Longrightarrow> parse_elements n (w @ s) = parse_elements n s"
  by (cases n) (simp_all add: parse_value_ws)

lemma parse_members_ws: "ws_only w \<Longrightarrow> parse_members n (w @ s) = parse_members n s"
  by (cases n) (simp_all add: skip_ws_append)

lemma stringify_start:
  assumes "representable v"
  shows "\<exists>c cs. stringify ind v = c # cs \<and> value_start c"
proof (cases v)
  case (VNum x)
  show ?thesis
  proof (cases x)
    case (Finite q)
    with assms VNum have "is_double q" by simp
    from number_to_string_start [OF this] obtain c cs where
      "number_to_string (Finite q) = c # cs" "c = 45 \<or> is_digit_unit c" by blast
    with VNum Finite show ?thesis
      by (auto simp: value_start_def is_ws_def is_digit_unit_def is_finite_def)
  next
    case NegZero
    with VNum show ?thesis
      by (simp add: is_finite_def number_to_string_def units_literals value_start_def is_ws_def)
  qed (use assms VNum in simp_all)
next
  case (VArr xs)
  then show ?thesis by (cases xs) (simp_all add: value_start_def is_ws_def text_literals)
next
  case (VObj ms)
  then show ?thesis by (cases ms) (simp_all add: value_start_def is_ws_def text_literals)
next
  case (VBool b)
  then show ?thesis by (cases b) (simp_all add: value_start_def is_ws_def text_literals)
qed (simp_all add: value_start_def is_ws_def quoteJSONString_def text_literals)

lemma stringify_elements_start:
  "representable x \<Longrightarrow> \<exists>c cs. stringify_elements ind (x # xs) = c # cs \<and> value_start c"
  using stringify_start [of x ind] by (cases xs) auto

lemma stringify_members_start:
  "\<exists>cs. stringify_members ind (m # ms) = 34 # cs"
  by (cases m; cases ms) (simp_all add: quoteJSONString_def text_literals)

lemma number_end_simps:
  "number_end (44 # s)" "number_end []" "number_end (93 # s)" "number_end (125 # s)"
  "ws_only w \<Longrightarrow> number_end (w @ 93 # s)" "ws_only w \<Longrightarrow> number_end (w @ 125 # s)"
proof -
  show "number_end (44 # s)" "number_end []" "number_end (93 # s)" "number_end (125 # s)"
    by (simp_all add: number_end_def is_digit_unit_def)
  have ws: "is_ws c \<Longrightarrow> \<not> is_digit_unit c \<and> c \<noteq> 46 \<and> c \<noteq> 101 \<and> c \<noteq> 69" for c
    by (auto simp: is_ws_def is_digit_unit_def)
  show "ws_only w \<Longrightarrow> number_end (w @ 93 # s)"
    by (cases w) (auto simp: number_end_def ws_only_def is_digit_unit_def dest: ws)
  show "ws_only w \<Longrightarrow> number_end (w @ 125 # s)"
    by (cases w) (auto simp: number_end_def ws_only_def is_digit_unit_def dest: ws)
qed

lemma set_entry_fresh: "k \<notin> fst ` set kvs \<Longrightarrow> set_entry kvs k v = kvs @ [(k, v)]"
  by (induction kvs k v rule: set_entry.induct) auto

lemma foldl_set_entry:
  "distinct (map fst (acc @ ms)) \<Longrightarrow>
   foldl (\<lambda>kvs (k, v). set_entry kvs k v) acc ms = acc @ ms"
proof (induction ms arbitrary: acc)
  case Nil
  then show ?case by simp
next
  case (Cons m ms)
  obtain k v where m: "m = (k, v)" by (cases m)
  from Cons.prems have fresh: "k \<notin> fst ` set acc" by (auto simp: m)
  from Cons.prems have "distinct (map fst ((acc @ [(k, v)]) @ ms))" by (simp add: m)
  from Cons.IH [OF this] show ?case
    by (simp add: m set_entry_fresh [OF fresh])
qed

lemma object_of_ordered:
  "distinct (map fst ms) \<Longrightarrow> js_order ms = ms \<Longrightarrow> object_of ms = VObj ms"
  using foldl_set_entry [of "[]" ms] by (simp add: object_of_def)

lemma skip_ws_start: "value_start c \<Longrightarrow> skip_ws (c # s) = c # s"
  by (simp add: value_start_def skip_ws_Cons)

lemma skip_ws_to_bracket:
  "ws_only w \<Longrightarrow> skip_ws (w @ 93 # s) = 93 # s"
  "ws_only w \<Longrightarrow> skip_ws (w @ 125 # s) = 125 # s"
  by (simp_all add: skip_ws_append skip_ws_Cons is_ws_def)

lemma parse_atoms:
  "parse_value (Suc n) (units ''null'' @ rest) = Some (VNull, rest)"
  "parse_value (Suc n) (units ''true'' @ rest) = Some (VBool True, rest)"
  "parse_value (Suc n) (units ''false'' @ rest) = Some (VBool False, rest)"
  "parse_value (Suc n) (units ''[]'' @ rest) = Some (VArr [], rest)"
  "parse_value (Suc n) (units ''{}'' @ rest) = Some (VObj [], rest)"
  by (simp_all add: skip_ws_Cons is_ws_def is_digit_unit_def parse_literal_def units_def)

lemma parse_string:
  "list_all (\<lambda>c. c < 65536) s \<Longrightarrow>
   parse_value (Suc n) (quoteJSONString s @ rest) = Some (VStr s, rest)"
  by (simp add: quoteJSONString_def skip_ws_Cons is_ws_def parse_chars_quoted text_literals)

lemma parse_number_value:
  assumes "is_double q" "number_end rest"
  shows "parse_value (Suc n) (number_to_string (Finite q) @ rest) = Some (VNum (Finite q), rest)"
proof -
  obtain c cs where c: "number_to_string (Finite q) = c # cs" "c = 45 \<or> is_digit_unit c"
    using number_to_string_start [OF assms(1)] by blast
  then have "value_start c" "c \<noteq> 91" "c \<noteq> 123" "c \<noteq> 34"
    by (auto simp: value_start_def is_ws_def is_digit_unit_def)
  then have "parse_value (Suc n) (c # cs @ rest) = parse_number (c # cs @ rest)"
    using c(2) by (auto simp: skip_ws_start)
  with parse_number_to_string [OF assms] c(1) show ?thesis by simp
qed

lemma parse_array:
  assumes "ws_only w" "representable x"
    and "parse_elements n (stringify_elements ind (x # xs) @ tail) = Some (ys, rest)"
  shows "parse_value (Suc n) (91 # w @ stringify_elements ind (x # xs) @ tail) = Some (VArr ys, rest)"
proof -
  obtain c cs where c: "stringify_elements ind (x # xs) = c # cs" "value_start c"
    using stringify_elements_start [OF assms(2)] by blast
  have "skip_ws (w @ stringify_elements ind (x # xs) @ tail) = c # cs @ tail"
    using c assms(1) by (simp add: skip_ws_append skip_ws_start)
  moreover have "c \<noteq> 93" using c(2) by (simp add: value_start_def)
  moreover have "parse_elements n (w @ stringify_elements ind (x # xs) @ tail) = Some (ys, rest)"
    using assms by (simp add: parse_elements_ws)
  ultimately show ?thesis
    by (simp add: skip_ws_Cons is_ws_def)
qed

lemma parse_object:
  assumes "ws_only w" "parse_members n (stringify_members ind (m # ms) @ tail) = Some (ys, rest)"
  shows "parse_value (Suc n) (123 # w @ stringify_members ind (m # ms) @ tail) = Some (object_of ys, rest)"
proof -
  obtain cs where c: "stringify_members ind (m # ms) = 34 # cs"
    using stringify_members_start by blast
  have "skip_ws (w @ stringify_members ind (m # ms) @ tail) = 34 # cs @ tail"
    using c assms(1) by (simp add: skip_ws_append skip_ws_Cons is_ws_def)
  moreover have "parse_members n (w @ stringify_members ind (m # ms) @ tail) = Some (ys, rest)"
    using assms by (simp add: parse_members_ws)
  ultimately show ?thesis
    by (simp add: skip_ws_Cons is_ws_def)
qed

lemma parse_last_element:
  assumes "parse_value n (text @ w @ 93 # rest) = Some (x, w @ 93 # rest)" "ws_only w"
  shows "parse_elements (Suc n) (text @ w @ 93 # rest) = Some ([x], rest)"
  using assms by (simp add: skip_ws_to_bracket)

lemma parse_next_element:
  assumes "parse_value n (text @ 44 # w @ later) = Some (x, 44 # w @ later)" "ws_only w"
    and "parse_elements n later = Some (xs, rest)"
  shows "parse_elements (Suc n) (text @ 44 # w @ later) = Some (x # xs, rest)"
  using assms by (simp add: skip_ws_Cons is_ws_def parse_elements_ws)

lemma parse_member_head:
  assumes "parse_value n (text @ tail) = Some (v, tail)" "list_all (\<lambda>c. c < 65536) k"
  shows "parse_members (Suc n) (quoteJSONString k @ units '': '' @ text @ tail) =
     (case skip_ws tail of
        [] \<Rightarrow> None
      | c # cs' \<Rightarrow>
          if c = of_char (CHR '','') then consumed (k, v) (parse_members n cs')
          else if c = of_char (CHR ''}'') then Some ([(k, v)], cs')
          else None)"
proof -
  have "parse_value n (32 # text @ tail) = Some (v, tail)"
    using parse_value_ws [of "[32]" n "text @ tail"] assms(1) by simp
  then show ?thesis
    by (simp add: quoteJSONString_def skip_ws_Cons is_ws_def parse_chars_quoted [OF assms(2)]
        text_literals)
qed

lemma parse_last_member:
  assumes "parse_value n (text @ w @ 125 # rest) = Some (v, w @ 125 # rest)" "ws_only w"
    and "list_all (\<lambda>c. c < 65536) k"
  shows "parse_members (Suc n) (quoteJSONString k @ units '': '' @ text @ w @ 125 # rest) = Some ([(k, v)], rest)"
  using parse_member_head [OF assms(1,3)] assms(2) by (simp add: skip_ws_to_bracket)

lemma parse_next_member:
  assumes "parse_value n (text @ 44 # w @ later) = Some (v, 44 # w @ later)" "ws_only w"
    and "parse_members n later = Some (ms, rest)" "list_all (\<lambda>c. c < 65536) k"
  shows "parse_members (Suc n) (quoteJSONString k @ units '': '' @ text @ 44 # w @ later) = Some ((k, v) # ms, rest)"
  using parse_member_head [OF assms(1,4)] assms(2,3)
  by (simp add: skip_ws_Cons is_ws_def parse_members_ws)

declare parse_value.simps [simp del] parse_elements.simps [simp del] parse_members.simps [simp del]

lemma roundtrip:
  "representable v \<Longrightarrow> \<not> has_negative_zero v \<Longrightarrow> ws_only ind \<Longrightarrow> number_end rest \<Longrightarrow>
     length (stringify ind v) \<le> n \<Longrightarrow>
     parse_value n (stringify ind v @ rest) = Some (v, rest)"
  "xs \<noteq> [] \<Longrightarrow> representable_elements xs \<Longrightarrow> \<not> elements_have_negative_zero xs \<Longrightarrow>
     ws_only ind \<Longrightarrow> ws_only w \<Longrightarrow> length (stringify_elements ind xs) < n \<Longrightarrow>
     parse_elements n (stringify_elements ind xs @ w @ 93 # rest) = Some (xs, rest)"
  "ms \<noteq> [] \<Longrightarrow> representable_members ms \<Longrightarrow> \<not> members_have_negative_zero ms \<Longrightarrow>
     ws_only ind \<Longrightarrow> ws_only w \<Longrightarrow> length (stringify_members ind ms) < n \<Longrightarrow>
     parse_members n (stringify_members ind ms @ w @ 125 # rest) = Some (ms, rest)"
proof (induction ind v and ind xs and ind ms arbitrary: n rest and n w rest and n w rest
    rule: stringify_stringify_elements_stringify_members.induct)
  case (1 ind)
  then obtain n' where "n = Suc n'" by (cases n) (auto simp: units_def)
  then show ?case using parse_atoms(1) [of n' rest] by simp
next
  case (2 ind b)
  then obtain n' where "n = Suc n'" by (cases n; cases b) (auto simp: units_def)
  then show ?case using parse_atoms(2,3) [of n' rest] by (cases b) simp_all
next
  case (3 ind x)
  from "3.prems"(1,2) obtain q where x: "x = Finite q" and q: "is_double q"
    by (cases x) simp_all
  from "3.prems"(5) x have "n \<noteq> 0"
    using number_to_string_start [OF q] by (auto simp: is_finite_def)
  then obtain n' where "n = Suc n'" by (cases n) auto
  then show ?case using parse_number_value [OF q "3.prems"(4)] by (simp add: x is_finite_def)
next
  case (4 ind s)
  then obtain n' where "n = Suc n'" by (cases n) (auto simp: quoteJSONString_def text_literals)
  then show ?case using parse_string "4.prems"(1) by simp
next
  case (5 ind)
  then obtain n' where "n = Suc n'" by (cases n) (auto simp: units_def)
  then show ?case using parse_atoms(4) [of n' rest] by simp
next
  case (6 ind x xs)
  from "6.prems"(5) obtain n' where n: "n = Suc n'" by (cases n) (auto simp: text_literals)
  let ?E = "stringify_elements (ind @ gap) (x # xs)"
  from "6.prems"(5) n have len: "length ?E < n'" by (simp add: newline_def text_literals units_def)
  have "parse_elements n' (?E @ (newline @ ind) @ 93 # rest) = Some (x # xs, rest)"
    using "6.prems"(1,2,3) len by (intro "6.IH") simp_all
  then have "parse_value (Suc n') (91 # (newline @ ind @ gap) @ ?E @ (newline @ ind) @ 93 # rest)
      = Some (VArr (x # xs), rest)"
    using "6.prems"(1,3) by (intro parse_array) simp_all
  then show ?case by (simp add: n text_literals)
next
  case (7 ind)
  then obtain n' where "n = Suc n'" by (cases n) (auto simp: units_def)
  then show ?case using parse_atoms(5) [of n' rest] by simp
next
  case (8 ind m ms)
  from "8.prems"(5) obtain n' where n: "n = Suc n'" by (cases n) (auto simp: text_literals)
  let ?M = "stringify_members (ind @ gap) (m # ms)"
  from "8.prems"(5) n have len: "length ?M < n'" by (simp add: newline_def text_literals units_def)
  from "8.prems"(1) have d: "distinct (map fst (m # ms))" and o: "js_order (m # ms) = m # ms"
    and r: "representable_members (m # ms)"
    by simp_all
  have "parse_members n' (?M @ (newline @ ind) @ 125 # rest) = Some (m # ms, rest)"
    using r "8.prems"(2,3) len by (intro "8.IH") simp_all
  then have "parse_value (Suc n') (123 # (newline @ ind @ gap) @ ?M @ (newline @ ind) @ 125 # rest)
      = Some (object_of (m # ms), rest)"
    using "8.prems"(3) by (intro parse_object) simp_all
  then show ?case by (simp add: n object_of_ordered [OF d o] text_literals)
next
  case (9 ind)
  then show ?case by simp
next
  case (10 ind x)
  from "10.prems"(6) obtain n' where n: "n = Suc n'" by (cases n) auto
  have "parse_value n' (stringify ind x @ w @ 93 # rest) = Some (x, w @ 93 # rest)"
    using "10.prems" n by (intro "10.IH") (simp_all add: number_end_simps)
  from parse_last_element [OF this "10.prems"(5)] show ?case by (simp add: n)
next
  case (11 ind x y ys)
  from "11.prems"(6) obtain n' where n: "n = Suc n'" by (cases n) auto
  let ?L = "stringify_elements ind (y # ys) @ w @ 93 # rest"
  have a: "parse_value n' (stringify ind x @ 44 # (newline @ ind) @ ?L) =
      Some (x, 44 # (newline @ ind) @ ?L)"
    using "11.prems" n by (intro "11.IH"(1)) (simp_all add: number_end_simps text_literals)
  have b: "parse_elements n' ?L = Some (y # ys, rest)"
    using "11.prems" n by (intro "11.IH"(2)) (simp_all add: text_literals)
  from parse_next_element [OF a _ b] "11.prems"(4) show ?case by (simp add: n text_literals)
next
  case (12 ind)
  then show ?case by simp
next
  case (13 ind k v)
  from "13.prems"(6) obtain n' where n: "n = Suc n'" by (cases n) auto
  from "13.prems"(2) have key: "list_all (\<lambda>c. c < 65536) k" by simp
  have "parse_value n' (stringify ind v @ w @ 125 # rest) = Some (v, w @ 125 # rest)"
    using "13.prems" n by (intro "13.IH") (simp_all add: number_end_simps text_literals)
  from parse_last_member [OF this "13.prems"(5) key] show ?case by (simp add: n)
next
  case (14 ind k v m ms)
  from "14.prems"(6) obtain n' where n: "n = Suc n'" by (cases n) auto
  from "14.prems"(2) have key: "list_all (\<lambda>c. c < 65536) k" by simp
  let ?L = "stringify_members ind (m # ms) @ w @ 125 # rest"
  have a: "parse_value n' (stringify ind v @ 44 # (newline @ ind) @ ?L) =
      Some (v, 44 # (newline @ ind) @ ?L)"
    using "14.prems" n by (intro "14.IH"(1)) (simp_all add: number_end_simps text_literals)
  have b: "parse_members n' ?L = Some (m # ms, rest)"
    using "14.prems" n by (intro "14.IH"(2)) (simp_all add: text_literals)
  from parse_next_member [OF a _ b key] "14.prems"(4) show ?case by (simp add: n text_literals)
qed

lemma JSON_roundtrip:
  assumes "representable v" "\<not> has_negative_zero v"
  shows "JSON_parse (JSON_stringify v) = Some v"
proof -
  have "parse_value (Suc (length (stringify [] v))) (stringify [] v @ []) = Some (v, [])"
    using assms by (intro roundtrip(1)) (simp_all add: number_end_simps)
  then show ?thesis
    by (simp add: JSON_parse_def JSON_stringify_def skip_ws_def)
qed

lemma example_keys:
  "index_of (units ''7'') = Some 7" "index_of (units ''12'') = Some 12"
  "index_of (units ''payload'') = None" "index_of (units ''source'') = None"
  "index_of (units ''departures'') = None" "index_of (units ''meta'') = None"
  "index_of (units ''direction'') = None" "index_of (units ''delay'') = None"
  "index_of (units ''cancelled'') = None"
  by (simp_all add: index_of_def units_def digits_value_def decimal_small decimal_step digit_char_def)

lemma example_doubles:
  "is_double (1 / 2)" "is_double (3602879701896397 / 36028797018963968)"
  "is_double (- (5 / 2))" "is_double 0" "is_double 1000000000000000000000"
proof -
  show "is_double (1 / 2)"
    using is_double_intro(1) [of 1 "- 1"] by (simp add: subnormal_digits_def)
  show "is_double (3602879701896397 / 36028797018963968)"
    using is_double_intro(1) [of 3602879701896397 "- 55"] by (simp add: subnormal_digits_def)
  show "is_double (- (5 / 2))"
    using is_double_intro(2) [of 5 "- 1"] by (simp add: subnormal_digits_def)
  show "is_double 0" by (simp add: is_double_def)
  show "is_double 1000000000000000000000"
    using is_double_intro(1) [of 476837158203125 21] by (simp add: subnormal_digits_def)
qed

lemma of_char_below: "(of_char c :: nat) < 65536"
proof -
  have "(of_char c :: nat) mod 256 < 256" by (rule mod_less_divisor) simp
  then have "(of_char c :: nat) < 256" by (simp only: of_char_mod_256)
  then show ?thesis by linarith
qed

lemma units_below: "list_all (\<lambda>c. c < 65536) (units s)"
  by (induction s) (simp_all add: units_def of_char_below)

lemma units_eq_iff: "units a = units b \<longleftrightarrow> a = b"
proof
  assume "units a = units b"
  then show "a = b"
  proof (induction a arbitrary: b)
    case Nil
    then show ?case by (simp add: units_def)
  next
    case (Cons x a)
    then obtain y b' where b: "b = y # b'" by (cases b) (auto simp: units_def)
    with Cons.prems have "(of_char x :: nat) = of_char y" "units a = units b'"
      by (simp_all add: units_def)
    with Cons.IH [of b'] b show ?case by (simp only: of_char_eq_iff)
  qed
qed simp

lemma representable_example_payload:
  "representable example_payload \<and> \<not> has_negative_zero example_payload"
  by (simp add: example_payload_def example_doubles units_below js_order_def example_keys
      units_eq_iff)

text \<open>
  Claim C5. For every JSON-representable payload that contains no negative zero, the
  success formatter returns an envelope whose content is a single text item, and parsing
  the text of that item as JSON gives the payload back. A payload is a JavaScript value
  in full: its numbers are doubles, its strings sequences of UTF-16 code units, its
  objects enumerate array-index keys first.
\<close>

theorem C5_format_then_parse:
  assumes "representable payload" "\<not> has_negative_zero payload"
  shows "\<exists>text. formatSuccess_spec payload = Inr (SuccessEnvelope [TextContent text]) \<and>
           JSON_parse text = Some payload"
  using JSON_roundtrip [OF assms] by (simp add: formatSuccess_spec_def)

theorem C5_format_then_parse_witness:
  "representable example_payload \<and> \<not> has_negative_zero example_payload \<and>
   (\<exists>text. formatSuccess_spec example_payload = Inr (SuccessEnvelope [TextContent text]) \<and>
          JSON_parse text = Some example_payload)"
  using C5_format_then_parse [of example_payload] representable_example_payload by blast

text \<open>
  Negative zero is JSON-representable (the text \<^verbatim>\<open>-0\<close> denotes it), but it is
  printed as \<^verbatim>\<open>0\<close>, which is parsed as positive zero: the round trip does not
  give it back.
\<close>

theorem C5_counterexample:
  "representable (VNum NegZero) \<and>
   formatSuccess_spec (VNum NegZero) = Inr (SuccessEnvelope [TextContent (units ''0'')]) \<and>
   JSON_parse (units ''0'') = Some (VNum (Finite 0)) \<and>
   JSON_parse (units ''0'') \<noteq> Some (VNum NegZero) \<and>
   JSON_parse (units ''-0'') = Some (VNum NegZero)"
  by (simp add: formatSuccess_spec_def JSON_stringify_def is_finite_def number_to_string_def
      JSON_parse_def units_def parse_value.simps skip_ws_def is_ws_def is_digit_unit_def
      parse_number_def parse_magnitude_def parse_int_part_def parse_fraction_def
      parse_exponent_def to_number_def zero_def digits_value_def)

end
